theory Spec2Isabelle
  imports Main "HOL-Library.Log_Nat"
begin

section \<open>Python strings\<close>

text \<open>
  A Python \<open>str\<close> is a sequence of Unicode code points and \<open>len\<close> counts code
  points, so a string is a list of code points here.  \<open>py\<close> writes an ASCII literal.
\<close>

type_synonym pystr = "nat list"

definition py :: "string \<Rightarrow> pystr" where
  "py s = map of_char s"

text \<open>
  \<open>str.isspace\<close> on one code point: the ASCII separators and the Unicode white space
  characters that \<open>str.strip()\<close> removes.
\<close>

definition py_isspace :: "nat \<Rightarrow> bool" where
  "py_isspace c \<longleftrightarrow>
     (9 \<le> c \<and> c \<le> 13) \<or> (28 \<le> c \<and> c \<le> 32) \<or> c = 133 \<or> c = 160 \<or> c = 5760 \<or>
     (8192 \<le> c \<and> c \<le> 8202) \<or> c = 8232 \<or> c = 8233 \<or> c = 8239 \<or> c = 8287 \<or>
     c = 12288"

text \<open>\<open>s.strip()\<close>: leading and trailing white space removed.\<close>

definition py_strip :: "pystr \<Rightarrow> pystr" where
  "py_strip s = rev (dropWhile py_isspace (rev (dropWhile py_isspace s)))"

text \<open>
  \<open>s.split('\n')\<close>: the pieces between line feeds (code point 10); the empty string
  gives one empty piece.
\<close>

fun py_split_nl :: "pystr \<Rightarrow> pystr list" where
  "py_split_nl [] = [[]]"
| "py_split_nl (c # cs) =
     (if c = 10 then [] # py_split_nl cs
      else (case py_split_nl cs of
              l # ls \<Rightarrow> (c # l) # ls
            | [] \<Rightarrow> [[c]]))"

section \<open>Faults and the data extracted from one document\<close>

text \<open>
  The exceptions of the program: what the operations catch with \<open>except Exception\<close>
  (the faults of opening a file, of the HTTP request, of the XML parser and of the PDF
  library), and what \<open>main\<close> does not catch (a division by zero, a line the console
  cannot encode, a file that cannot be written).
\<close>

datatype py_exception =
    OSError
  | ConnectionError
  | Timeout
  | ParseError
  | FileDataError
  | RuntimeError
  | ZeroDivisionError
  | UnicodeEncodeError

text \<open>The dictionary \<open>{"abstract": ..., "full_text": ...}\<close> both paths return.\<close>

record extracted =
  abstract :: pystr
  full_text :: pystr

definition no_data :: extracted where
  "no_data = \<lparr>abstract = [], full_text = []\<rparr>"

section \<open>The heuristic path: \<open>extract_text_with_pymupdf\<close>\<close>

text \<open>
  An opened document is the list of its pages; \<open>page.get_text()\<close> gives the page's
  text or raises.  The page loop appends the text of every page that is not blank,
  followed by a line feed.
\<close>

type_synonym page = "py_exception + pystr"

fun read_pages :: "pystr \<Rightarrow> page list \<Rightarrow> py_exception + pystr" where
  "read_pages acc [] = Inr acc"
| "read_pages acc (p # ps) =
     (case p of
        Inl e \<Rightarrow> Inl e
      | Inr text \<Rightarrow>
          if py_strip text \<noteq> [] then read_pages (acc @ text @ [10]) ps
          else read_pages acc ps)"

text \<open>
  The loop over \<open>lines[:20]\<close>, started on the lines it still has to visit: a line is
  stripped, a stripped line longer than 50 is appended with a space, and the loop breaks
  once the buffer is longer than 500.
\<close>

fun scan_lines :: "pystr \<Rightarrow> pystr list \<Rightarrow> pystr" where
  "scan_lines buf [] = buf"
| "scan_lines buf (l # ls) =
     (let line = py_strip l in
      if line \<noteq> [] \<and> length line > 50 then
        (let buf' = buf @ line @ [32] in
         if length buf' > 500 then buf' else scan_lines buf' ls)
      else scan_lines buf ls)"

definition abstract_buffer :: "pystr \<Rightarrow> pystr" where
  "abstract_buffer text = scan_lines [] (take 20 (py_split_nl text))"

section \<open>Paths\<close>

text \<open>
  A \<open>pathlib.Path\<close>: the directory and the final component.  \<open>stem\<close> is pathlib's
  property: the final component cut at its last dot, unless that dot is the first or the
  last character of the name, or the name has none.
\<close>

datatype path = Path (parent: "pystr list") (name: pystr)

definition py_rfind :: "nat \<Rightarrow> pystr \<Rightarrow> int" where
  "py_rfind c s =
     (if c \<in> set s then int (length s) - 1 - int (length (takeWhile (\<lambda>x. x \<noteq> c) (rev s)))
      else - 1)"

definition stem :: "path \<Rightarrow> pystr" where
  "stem p =
     (let i = py_rfind 46 (name p) in
      if 0 < i \<and> i < int (length (name p)) - 1 then take (nat i) (name p) else name p)"

section \<open>The XML tree of \<open>xml.etree.ElementTree\<close>\<close>

text \<open>
  An element has a tag (with its namespace in braces), the text before its first child
  (\<open>elem.text\<close>), the text after its end tag (\<open>elem.tail\<close>) and its children.
  \<open>iter\<close> is \<open>Element.iter()\<close>: the element, then its descendants, in document
  order.
\<close>

datatype element =
  Element (tag: pystr) (elem_text: "pystr option") (elem_tail: "pystr option")
    (children: "element list")

fun iter :: "element \<Rightarrow> element list" where
  "iter (Element t x y cs) = Element t x y cs # concat (map iter cs)"

fun py_join :: "pystr \<Rightarrow> pystr list \<Rightarrow> pystr" where
  "py_join sep [] = []"
| "py_join sep [x] = x"
| "py_join sep (x # y # ys) = x @ sep @ py_join sep (y # ys)"

text \<open>
  The loop of \<open>extract_text_from_element\<close>: the stripped \<open>elem.text\<close> of every
  element whose text is present and not blank.
\<close>

fun text_parts :: "element list \<Rightarrow> pystr list" where
  "text_parts [] = []"
| "text_parts (elem # es) =
     (case elem_text elem of
        None \<Rightarrow> text_parts es
      | Some t \<Rightarrow>
          if t \<noteq> [] \<and> py_strip t \<noteq> [] then py_strip t # text_parts es
          else text_parts es)"

definition extract_text_from_element :: "element option \<Rightarrow> pystr" where
  "extract_text_from_element element =
     (case element of
        None \<Rightarrow> []
      | Some e \<Rightarrow> py_join [32] (text_parts (iter e)))"

text \<open>
  The two path expressions.  \<open>.//t\<close> selects the descendants tagged \<open>t\<close> (never the
  element itself), a following \<open>/c\<close> their children tagged \<open>c\<close>; \<open>find\<close> returns the
  first element selected, or \<open>None\<close>.
\<close>

definition tei :: "string \<Rightarrow> pystr" where
  "tei n = py ''{http://www.tei-c.org/ns/1.0}'' @ py n"

definition descendants :: "pystr \<Rightarrow> element \<Rightarrow> element list" where
  "descendants t e = filter (\<lambda>d. tag d = t) (concat (map iter (children e)))"

definition find_first :: "element list \<Rightarrow> element option" where
  "find_first es = (case es of [] \<Rightarrow> None | e # _ \<Rightarrow> Some e)"

definition find_abstract :: "element \<Rightarrow> element option" where
  "find_abstract xml_root =
     find_first (concat (map (\<lambda>p. filter (\<lambda>c. tag c = tei ''abstract'') (children p))
       (descendants (tei ''profileDesc'') xml_root)))"

definition find_body :: "element \<Rightarrow> element option" where
  "find_body xml_root = find_first (descendants (tei ''body'') xml_root)"

section \<open>Results, statistics and files\<close>

text \<open>
  The record \<open>parse_article\<close> emits.  The two method strings are the only values the
  key \<open>method\<close> takes.
\<close>

datatype extraction_method = GROBID | PyMuPDF

definition method_name :: "extraction_method \<Rightarrow> pystr" where
  "method_name m = (case m of GROBID \<Rightarrow> py ''GROBID'' | PyMuPDF \<Rightarrow> py ''PyMuPDF'')"

record extraction_result = extracted +
  filename :: pystr
  title :: pystr
  abstract_length :: nat
  text_length :: nat
  method_of :: extraction_method

text \<open>
  The counters of the loop, which are also three keys of the statistics; the statistics;
  and what a JSON file of the output directory holds.
\<close>

record tallies =
  grobid_success :: nat
  pymupdf_success :: nat
  failed :: nat

record stats = tallies +
  total_files :: nat
  successful :: nat
  success_rate :: pystr

datatype json =
    ArticleJson extraction_result
  | ArticlesJson "extraction_result list"
  | StatsJson stats

text \<open>
  The lines \<open>main\<close> prints, one constructor for each \<open>print\<close> statement with the
  values it formats: the two opening lines; for each document its number, the number of
  documents and its name, then either the method and title and the two lengths, or the
  name of the document that gave no text; the seven lines of the summary and the four
  lines that say where the files are; or the line that says nothing was processed.
\<close>

datatype console_line =
    Starting
  | SavingTo
  | Processing nat nat pystr
  | Succeeded extraction_method pystr
  | AbstractChars nat
  | TextChars nat
  | NotExtracted pystr
  | SummaryHeader
  | SummaryTotal nat
  | SummarySuccessful nat
  | SummaryGrobid nat
  | SummaryPymupdf nat
  | SummaryFailed nat
  | SummaryRate pystr
  | SavedHeader
  | SavedAll
  | SavedStats
  | SavedArticles
  | NothingProcessed

section \<open>The world outside the program\<close>

text \<open>
  The collaborators of the program, each returning a value or raising: opening a file
  for reading, the HTTP request, the XML parser and the PDF library; and, for \<open>main\<close>,
  creating the output directory, printing a line, and writing a JSON file (\<open>open\<close> for
  writing and \<open>json.dump\<close>), each of which raises or does not.
\<close>

record request =
  url :: pystr
  upload_name :: pystr
  upload_bytes :: pystr
  upload_type :: pystr
  form :: "(pystr \<times> pystr) list"
  timeout :: nat

record response =
  status_code :: int
  resp_text :: pystr

record world =
  open_rb :: "path \<Rightarrow> py_exception + pystr"
  requests_post :: "request \<Rightarrow> py_exception + response"
  fromstring :: "pystr \<Rightarrow> py_exception + element"
  fitz_open :: "path \<Rightarrow> py_exception + page list"
  mkdir :: "py_exception option"
  console :: "console_line \<Rightarrow> py_exception option"
  write_json :: "pystr \<Rightarrow> json \<Rightarrow> py_exception option"

section \<open>The operations of \<open>HybridPDFParser\<close>\<close>

text \<open>
  Each operation is a \<open>try\<close> block, modelled as a function that returns \<open>Inl\<close> where
  the block raises, and the \<open>except Exception\<close> clause around it.
\<close>

definition try_extract_text_with_pymupdf :: "world \<Rightarrow> path \<Rightarrow> py_exception + extracted" where
  "try_extract_text_with_pymupdf w pdf_path =
     (case fitz_open w pdf_path of
        Inl e \<Rightarrow> Inl e
      | Inr doc \<Rightarrow>
          (case read_pages [] doc of
             Inl e \<Rightarrow> Inl e
           | Inr txt \<Rightarrow>
               Inr \<lparr>abstract = py_strip (abstract_buffer txt), full_text = py_strip txt\<rparr>))"

definition extract_text_with_pymupdf :: "world \<Rightarrow> path \<Rightarrow> extracted" where
  "extract_text_with_pymupdf w pdf_path =
     (case try_extract_text_with_pymupdf w pdf_path of
        Inl e \<Rightarrow> no_data
      | Inr d \<Rightarrow> d)"

definition grobid_url :: pystr where
  "grobid_url = py ''http://localhost:8070''"

definition grobid_request :: "path \<Rightarrow> pystr \<Rightarrow> request" where
  "grobid_request pdf_path f =
     \<lparr>url = grobid_url @ py ''/api/processFulltextDocument'',
      upload_name = name pdf_path,
      upload_bytes = f,
      upload_type = py ''application/pdf'',
      form = [(py ''consolidateHeader'', py ''1''), (py ''consolidateCitations'', py ''1''),
              (py ''generateIDs'', py ''1''), (py ''includeRawCitations'', py ''1''),
              (py ''includeRawAffiliations'', py ''1''), (py ''teiCoordinates'', py ''1'')],
      timeout = 60\<rparr>"

definition try_parse_pdf_to_xml :: "world \<Rightarrow> path \<Rightarrow> py_exception + pystr option" where
  "try_parse_pdf_to_xml w pdf_path =
     (case open_rb w pdf_path of
        Inl e \<Rightarrow> Inl e
      | Inr f \<Rightarrow>
          (case requests_post w (grobid_request pdf_path f) of
             Inl e \<Rightarrow> Inl e
           | Inr r \<Rightarrow> if status_code r = 200 then Inr (Some (resp_text r)) else Inr None))"

definition parse_pdf_to_xml :: "world \<Rightarrow> path \<Rightarrow> pystr option" where
  "parse_pdf_to_xml w pdf_path =
     (case try_parse_pdf_to_xml w pdf_path of
        Inl e \<Rightarrow> None
      | Inr r \<Rightarrow> r)"

definition extract_from_root :: "element \<Rightarrow> extracted" where
  "extract_from_root xml_root =
     \<lparr>abstract =
        (case find_abstract xml_root of
           None \<Rightarrow> []
         | Some abstract_elem \<Rightarrow> extract_text_from_element (Some abstract_elem)),
      full_text =
        (case find_body xml_root of
           None \<Rightarrow> []
         | Some body_elem \<Rightarrow> extract_text_from_element (Some body_elem))\<rparr>"

definition try_extract_from_xml :: "world \<Rightarrow> pystr \<Rightarrow> py_exception + extracted" where
  "try_extract_from_xml w xml_content =
     (case fromstring w xml_content of
        Inl e \<Rightarrow> Inl e
      | Inr xml_root \<Rightarrow> Inr (extract_from_root xml_root))"

definition extract_from_xml :: "world \<Rightarrow> pystr \<Rightarrow> extracted" where
  "extract_from_xml w xml_content =
     (case try_extract_from_xml w xml_content of
        Inl e \<Rightarrow> no_data
      | Inr d \<Rightarrow> d)"

text \<open>
  \<open>parse_article\<close>.  \<open>if xml_content\<close> holds for a string that is neither \<open>None\<close> nor
  empty.
\<close>

definition extract_with_fallback :: "world \<Rightarrow> path \<Rightarrow> extracted \<times> extraction_method" where
  "extract_with_fallback w pdf_path =
     (case parse_pdf_to_xml w pdf_path of
        None \<Rightarrow> (extract_text_with_pymupdf w pdf_path, PyMuPDF)
      | Some xml_content \<Rightarrow>
          if xml_content \<noteq> [] then (extract_from_xml w xml_content, GROBID)
          else (extract_text_with_pymupdf w pdf_path, PyMuPDF))"

definition parse_article :: "world \<Rightarrow> path \<Rightarrow> extraction_result option" where
  "parse_article w pdf_path =
     (case extract_with_fallback w pdf_path of
        (extracted_data, m) \<Rightarrow>
          if abstract extracted_data = [] \<and> full_text extracted_data = [] then None
          else Some \<lparr>abstract = abstract extracted_data,
                     full_text = full_text extracted_data,
                     filename = name pdf_path,
                     title = stem pdf_path,
                     abstract_length = length (abstract extracted_data),
                     text_length = length (full_text extracted_data),
                     method_of = m\<rparr>)"

section \<open>The arithmetic of the success rate\<close>

text \<open>
  \<open>len(results)/len(pdf_files)*100\<close> is computed in binary64: the quotient of the two
  integers is rounded to the nearest double, ties to the even significand, and so is its
  product with 100.  \<open>:.1f\<close> prints the decimal with one fractional digit nearest to
  the double, ties to the even digit.  Doubles are the rationals they denote; the values
  here lie between 0 and 100, far from overflow and underflow.
\<close>

definition round_half_even :: "rat \<Rightarrow> int" where
  "round_half_even x =
     (let f = \<lfloor>x\<rfloor>; d = x - of_int f in
      if d < 1 / 2 then f
      else if 1 / 2 < d then f + 1
      else if even f then f else f + 1)"

text \<open>The exponent of the leading bit of a positive rational.\<close>

definition floor_log2 :: "rat \<Rightarrow> int" where
  "floor_log2 x =
     (case quotient_of x of
        (p, q) \<Rightarrow>
          (let d = bitlen p - bitlen q in
           if power_int 2 d \<le> x then d else d - 1))"

definition round_binary64 :: "rat \<Rightarrow> rat" where
  "round_binary64 x =
     (if x = 0 then 0
      else (let e = floor_log2 x - 52 in
            of_int (round_half_even (x / power_int 2 e)) * power_int 2 e))"

fun digits :: "nat \<Rightarrow> pystr" where
  "digits n = (if n < 10 then [48 + n] else digits (n div 10) @ [48 + n mod 10])"

declare digits.simps [simp del]

definition format_1f :: "rat \<Rightarrow> pystr" where
  "format_1f y =
     (let t = nat (round_half_even (y * 10)) in digits (t div 10) @ [46] @ digits (t mod 10))"

definition success_rate_of :: "nat \<Rightarrow> nat \<Rightarrow> py_exception + pystr" where
  "success_rate_of n m =
     (if m = 0 then Inl ZeroDivisionError
      else Inr (format_1f (round_binary64 (round_binary64 (of_nat n / of_nat m) * 100))
                @ py ''%''))"

section \<open>The batch run: \<open>main\<close>\<close>

text \<open>
  The state of the loop: the counters, the list of results and the output directory, a
  map from file names to contents.
\<close>

record main_state = tallies +
  results :: "extraction_result list"
  output_dir :: "pystr \<rightharpoonup> json"

definition article_filename :: "extraction_result \<Rightarrow> pystr" where
  "article_filename r = title r @ py ''_'' @ method_name (method_of r) @ py ''.json''"

text \<open>Printing lines one after the other: the first that raises ends it.\<close>

fun prints :: "world \<Rightarrow> console_line list \<Rightarrow> py_exception option" where
  "prints w [] = None"
| "prints w (l # ls) = (case console w l of Some e \<Rightarrow> Some e | None \<Rightarrow> prints w ls)"

text \<open>
  The state an iteration leaves when nothing raises: a result is appended, counted under
  its method and written to its file; a document without text is counted as failed.
\<close>

definition advance :: "world \<Rightarrow> main_state \<Rightarrow> path \<Rightarrow> main_state" where
  "advance w s pdf_path =
     (case parse_article w pdf_path of
        Some r \<Rightarrow>
          (let s1 = s\<lparr>results := results s @ [r]\<rparr>;
               s2 = (if method_of r = GROBID
                     then s1\<lparr>grobid_success := grobid_success s1 + 1\<rparr>
                     else s1\<lparr>pymupdf_success := pymupdf_success s1 + 1\<rparr>)
           in s2\<lparr>output_dir := (output_dir s2)(article_filename r \<mapsto> ArticleJson r)\<rparr>)
      | None \<Rightarrow> s\<lparr>failed := failed s + 1\<rparr>)"

text \<open>
  The body of the loop, for document number \<open>i\<close> of \<open>n\<close>.  Nothing in it is inside a
  \<open>try\<close>: a \<open>print\<close> or the writing of the file that raises ends the run with that
  exception.
\<close>

definition process :: "world \<Rightarrow> nat \<Rightarrow> nat \<Rightarrow> main_state \<Rightarrow> path \<Rightarrow> py_exception + main_state" where
  "process w n i s pdf_path =
     (case console w (Processing i n (name pdf_path)) of
        Some e \<Rightarrow> Inl e
      | None \<Rightarrow>
          (case parse_article w pdf_path of
             Some r \<Rightarrow>
               (case prints w [Succeeded (method_of r) (title r),
                               AbstractChars (abstract_length r),
                               TextChars (text_length r)] of
                  Some e \<Rightarrow> Inl e
                | None \<Rightarrow>
                    (case write_json w (article_filename r) (ArticleJson r) of
                       Some e \<Rightarrow> Inl e
                     | None \<Rightarrow> Inr (advance w s pdf_path)))
           | None \<Rightarrow>
               (case console w (NotExtracted (name pdf_path)) of
                  Some e \<Rightarrow> Inl e
                | None \<Rightarrow> Inr (advance w s pdf_path))))"

definition initial_state :: "(pystr \<rightharpoonup> json) \<Rightarrow> main_state" where
  "initial_state dir =
     \<lparr>grobid_success = 0, pymupdf_success = 0, failed = 0, results = [], output_dir = dir\<rparr>"

text \<open>The loop over \<open>enumerate(pdf_files, 1)\<close>, from document number \<open>i\<close> on.\<close>

fun run_loop :: "world \<Rightarrow> nat \<Rightarrow> nat \<Rightarrow> main_state \<Rightarrow> path list \<Rightarrow> py_exception + main_state" where
  "run_loop w n i s [] = Inr s"
| "run_loop w n i s (p # ps) =
     (case process w n i s p of
        Inl e \<Rightarrow> Inl e
      | Inr s' \<Rightarrow> run_loop w n (i + 1) s' ps)"

definition main_loop :: "world \<Rightarrow> path list \<Rightarrow> (pystr \<rightharpoonup> json) \<Rightarrow> py_exception + main_state" where
  "main_loop w pdf_files dir = run_loop w (length pdf_files) 1 (initial_state dir) pdf_files"

text \<open>The state the loop leaves when no iteration raises.\<close>

definition completed_loop :: "world \<Rightarrow> path list \<Rightarrow> (pystr \<rightharpoonup> json) \<Rightarrow> main_state" where
  "completed_loop w pdf_files dir = foldl (advance w) (initial_state dir) pdf_files"

definition make_stats :: "path list \<Rightarrow> main_state \<Rightarrow> py_exception + stats" where
  "make_stats pdf_files s =
     (case success_rate_of (length (results s)) (length pdf_files) of
        Inl e \<Rightarrow> Inl e
      | Inr rate \<Rightarrow>
          Inr \<lparr>grobid_success = grobid_success s,
               pymupdf_success = pymupdf_success s,
               failed = failed s,
               total_files = length pdf_files,
               successful = length (results s),
               success_rate = rate\<rparr>)"

definition summary_lines :: "stats \<Rightarrow> console_line list" where
  "summary_lines st =
     [SummaryHeader, SummaryTotal (total_files st), SummarySuccessful (successful st),
      SummaryGrobid (grobid_success st), SummaryPymupdf (pymupdf_success st),
      SummaryFailed (failed st), SummaryRate (success_rate st),
      SavedHeader, SavedAll, SavedStats, SavedArticles]"

text \<open>
  \<open>main\<close> on the documents the directory listing gave and the output directory as it
  was found.  The two summary files are written only when there is a result.  The
  summary prints the rate by the same expression as the statistics hold it.  Creating
  the directory, the prints and the writes are outside every \<open>try\<close>.
\<close>

definition main :: "world \<Rightarrow> path list \<Rightarrow> (pystr \<rightharpoonup> json) \<Rightarrow> py_exception + main_state" where
  "main w pdf_files dir =
     (case mkdir w of
        Some e \<Rightarrow> Inl e
      | None \<Rightarrow>
     (case prints w [Starting, SavingTo] of
        Some e \<Rightarrow> Inl e
      | None \<Rightarrow>
     (case main_loop w pdf_files dir of
        Inl e \<Rightarrow> Inl e
      | Inr s \<Rightarrow>
          if results s \<noteq> [] then
            (case write_json w (py ''all_articles.json'') (ArticlesJson (results s)) of
               Some e \<Rightarrow> Inl e
             | None \<Rightarrow>
            (let s1 = s\<lparr>output_dir :=
                        (output_dir s)(py ''all_articles.json'' \<mapsto> ArticlesJson (results s))\<rparr>
             in case make_stats pdf_files s1 of
                  Inl e \<Rightarrow> Inl e
                | Inr st \<Rightarrow>
                    (case write_json w (py ''parsing_statistics.json'') (StatsJson st) of
                       Some e \<Rightarrow> Inl e
                     | None \<Rightarrow>
                         (case prints w (summary_lines st) of
                            Some e \<Rightarrow> Inl e
                          | None \<Rightarrow>
                              Inr (s1\<lparr>output_dir :=
                                     (output_dir s1)(py ''parsing_statistics.json'' \<mapsto>
                                        StatsJson st)\<rparr>)))))
          else (case console w NothingProcessed of
                  Some e \<Rightarrow> Inl e
                | None \<Rightarrow> Inr s))))"

text \<open>
  The state \<open>main\<close> returns when nothing raises: that of the loop, with the two summary
  files when there is a result.
\<close>

definition completed_main :: "world \<Rightarrow> path list \<Rightarrow> (pystr \<rightharpoonup> json) \<Rightarrow> main_state" where
  "completed_main w pdf_files dir =
     (let s = completed_loop w pdf_files dir in
      if results s = [] then s
      else s\<lparr>output_dir := (output_dir s)
             (py ''all_articles.json'' \<mapsto> ArticlesJson (results s),
              py ''parsing_statistics.json'' \<mapsto>
                StatsJson \<lparr>grobid_success = grobid_success s,
                            pymupdf_success = pymupdf_success s,
                            failed = failed s,
                            total_files = length pdf_files,
                            successful = length (results s),
                            success_rate =
                              format_1f (round_binary64 (round_binary64
                                (of_nat (length (results s)) / of_nat (length pdf_files)) * 100))
                              @ py ''%''\<rparr>)\<rparr>)"

section \<open>Example documents and worlds\<close>

text \<open>
  A response of the service and the tree the XML parser builds from it: an abstract of
  one paragraph, and a body whose paragraph holds a reference followed by more text.
  The text after the reference is the tail of the \<open>ref\<close> element.
\<close>

definition example_xml :: pystr where
  "example_xml =
     py ''<TEI xmlns='' @ [34] @ py ''http://www.tei-c.org/ns/1.0'' @ [34] @
     py ''><teiHeader><profileDesc><abstract><p>Foo bar.</p></abstract></profileDesc></teiHeader>'' @
     py ''<text><body><p>Hello <ref>[1]</ref> world</p></body></text></TEI>''"

definition example_body :: element where
  "example_body =
     Element (tei ''body'') None None
       [Element (tei ''p'') (Some (py ''Hello '')) None
          [Element (tei ''ref'') (Some (py ''[1]'')) (Some (py '' world'')) []]]"

definition example_tree :: element where
  "example_tree =
     Element (tei ''TEI'') None None
       [Element (tei ''teiHeader'') None None
          [Element (tei ''profileDesc'') None None
             [Element (tei ''abstract'') None None
                [Element (tei ''p'') (Some (py ''Foo bar.'')) None []]]],
        Element (tei ''text'') None None [example_body]]"

definition example_path :: path where
  "example_path = Path [py ''pages''] (py ''paper.pdf'')"

text \<open>The service answers 200 with the example response; the PDF has one page.\<close>

definition world_ok :: world where
  "world_ok =
     \<lparr>open_rb = (\<lambda>_. Inr (py ''%PDF-1.4'')),
      requests_post = (\<lambda>_. Inr \<lparr>status_code = 200, resp_text = example_xml\<rparr>),
      fromstring = (\<lambda>x. if x = example_xml then Inr example_tree else Inl ParseError),
      fitz_open = (\<lambda>_. Inr [Inr (py ''hello'')]),
      mkdir = None,
      console = (\<lambda>_. None),
      write_json = (\<lambda>_ _. None)\<rparr>"

text \<open>The service cannot be reached; the PDF has two pages.\<close>

definition world_down :: world where
  "world_down =
     \<lparr>open_rb = (\<lambda>_. Inr (py ''%PDF-1.4'')),
      requests_post = (\<lambda>_. Inl ConnectionError),
      fromstring = (\<lambda>_. Inl ParseError),
      fitz_open = (\<lambda>_. Inr [Inr (py ''a''), Inr (py ''b'')]),
      mkdir = None,
      console = (\<lambda>_. None),
      write_json = (\<lambda>_ _. None)\<rparr>"

text \<open>The service answers 503.\<close>

definition world_503 :: world where
  "world_503 =
     \<lparr>open_rb = (\<lambda>_. Inr (py ''%PDF-1.4'')),
      requests_post = (\<lambda>_. Inr \<lparr>status_code = 503, resp_text = py ''busy''\<rparr>),
      fromstring = (\<lambda>_. Inl ParseError),
      fitz_open = (\<lambda>_. Inr [Inr (py ''a''), Inl RuntimeError]),
      mkdir = None,
      console = (\<lambda>_. None),
      write_json = (\<lambda>_ _. None)\<rparr>"

text \<open>
  The service answers 200 with a body that is not XML; the PDF has one page of text.
\<close>

definition world_malformed :: world where
  "world_malformed =
     \<lparr>open_rb = (\<lambda>_. Inr (py ''%PDF-1.4'')),
      requests_post = (\<lambda>_. Inr \<lparr>status_code = 200, resp_text = py ''<<<''\<rparr>),
      fromstring = (\<lambda>_. Inl ParseError),
      fitz_open = (\<lambda>_. Inr [Inr (py ''hello'')]),
      mkdir = None,
      console = (\<lambda>_. None),
      write_json = (\<lambda>_ _. None)\<rparr>"

text \<open>Nothing can be opened.\<close>

definition world_nothing :: world where
  "world_nothing =
     \<lparr>open_rb = (\<lambda>_. Inl OSError),
      requests_post = (\<lambda>_. Inl Timeout),
      fromstring = (\<lambda>_. Inl ParseError),
      fitz_open = (\<lambda>_. Inl FileDataError),
      mkdir = None,
      console = (\<lambda>_. None),
      write_json = (\<lambda>_ _. None)\<rparr>"

text \<open>
  A directory of three documents: the first two are answered by the service, the third
  can be opened by neither path.
\<close>

definition batch :: "path list" where
  "batch = [Path [py ''pages''] (py ''a.pdf''), Path [py ''pages''] (py ''b.pdf''),
            Path [py ''pages''] (py ''c.pdf'')]"

definition world_batch :: world where
  "world_batch =
     \<lparr>open_rb = (\<lambda>p. if name p = py ''c.pdf'' then Inl OSError else Inr (py ''%PDF-1.4'')),
      requests_post = (\<lambda>_. Inr \<lparr>status_code = 200, resp_text = example_xml\<rparr>),
      fromstring = (\<lambda>x. if x = example_xml then Inr example_tree else Inl ParseError),
      fitz_open = (\<lambda>_. Inl FileDataError),
      mkdir = None,
      console = (\<lambda>_. None),
      write_json = (\<lambda>_ _. None)\<rparr>"

text \<open>
  Texts for the scan of the abstract: one line of two spaces and 49 letters; and two
  texts of 21 lines, a first line of 51 letters, 19 empty lines and a last line that
  differs.
\<close>

definition padded_line :: pystr where
  "padded_line = replicate 2 32 @ replicate 49 97"

definition text_x :: pystr where
  "text_x = replicate 51 97 @ replicate 20 10 @ replicate 60 120"

definition text_y :: pystr where
  "text_y = replicate 51 97 @ replicate 20 10 @ replicate 60 121"

text \<open>
  Two documents with the same stem, since a name that starts with its only dot has no
  extension; and a document whose name has 246 letters before the extension.
\<close>

definition hidden_batch :: "path list" where
  "hidden_batch = [Path [py ''pages''] (py ''.pdf''), Path [py ''pages''] (py ''.pdf.pdf'')]"

definition long_path :: path where
  "long_path = Path [py ''pages''] (replicate 246 97 @ py ''.pdf'')"

text \<open>
  The world of the example response, on a file system that refuses a file name of more
  than 255 characters.
\<close>

definition world_short_names :: world where
  "world_short_names =
     \<lparr>open_rb = (\<lambda>_. Inr (py ''%PDF-1.4'')),
      requests_post = (\<lambda>_. Inr \<lparr>status_code = 200, resp_text = example_xml\<rparr>),
      fromstring = (\<lambda>x. if x = example_xml then Inr example_tree else Inl ParseError),
      fitz_open = (\<lambda>_. Inr [Inr (py ''hello'')]),
      mkdir = None,
      console = (\<lambda>_. None),
      write_json = (\<lambda>f _. if 255 < length f then Some OSError else None)\<rparr>"

text \<open>An output directory with no file in it.\<close>

definition empty_dir :: "pystr \<rightharpoonup> json" where
  "empty_dir = Map.empty"

section \<open>Evaluating the examples\<close>

lemma tei_inj: "tei a = tei b \<longleftrightarrow> a = b"
  by (simp add: tei_def py_def inj_on_def)

lemma extract_example_tree:
  "extract_from_root example_tree = \<lparr>abstract = py ''Foo bar.'', full_text = py ''Hello [1]''\<rparr>"
  by (simp add: example_tree_def example_body_def extract_from_root_def find_abstract_def
      find_body_def descendants_def find_first_def extract_text_from_element_def tei_inj
      py_strip_def py_isspace_def py_def)

lemma fallback_world_ok:
  "extract_with_fallback world_ok example_path =
     (\<lparr>abstract = py ''Foo bar.'', full_text = py ''Hello [1]''\<rparr>, GROBID)"
  by (simp add: extract_with_fallback_def parse_pdf_to_xml_def try_parse_pdf_to_xml_def
      extract_from_xml_def try_extract_from_xml_def world_ok_def extract_example_tree
      example_xml_def py_def)

lemma parse_article_world_ok:
  "parse_article world_ok example_path =
     Some \<lparr>abstract = py ''Foo bar.'', full_text = py ''Hello [1]'', filename = py ''paper.pdf'',
           title = py ''paper'', abstract_length = 8, text_length = 9, method_of = GROBID\<rparr>"
  by (simp add: parse_article_def fallback_world_ok)
     (simp add: example_path_def stem_def py_rfind_def py_def)

lemma fallback_world_nothing:
  "extract_with_fallback world_nothing example_path = (\<lparr>abstract = [], full_text = []\<rparr>, PyMuPDF)"
  by (simp add: extract_with_fallback_def parse_pdf_to_xml_def try_parse_pdf_to_xml_def
      extract_text_with_pymupdf_def try_extract_text_with_pymupdf_def world_nothing_def no_data_def)

lemma parse_article_world_nothing: "parse_article world_nothing example_path = None"
  by (simp add: parse_article_def fallback_world_nothing)

lemma rfind_last_dot:
  assumes "c \<notin> set ext"
  shows "py_rfind c (base @ [c] @ ext) = int (length base)"
proof -
  have "takeWhile (\<lambda>x. x \<noteq> c) (rev ext @ c # rev base) = rev ext"
    using assms by (subst takeWhile_append2) auto
  then show ?thesis by (simp add: py_rfind_def)
qed

lemma stem_cuts_extension:
  assumes "name p = base @ [46] @ ext" "base \<noteq> []" "ext \<noteq> []" "46 \<notin> set ext"
  shows "stem p = base"
proof -
  have "py_rfind 46 (name p) = int (length base)"
    using assms(1,4) rfind_last_dot by simp
  moreover have "0 < length base" "0 < length ext" using assms(2,3) by simp_all
  ultimately show ?thesis using assms(1) by (simp add: stem_def)
qed

section \<open>The emitted record\<close>

text \<open>
  C6.  In every result \<open>parse_article\<close> emits, the title is the stem of the path: the
  file name without its extension, whenever the name is a non-empty base, a dot and a
  non-empty extension without dots.  \<open>abstract_length\<close> and \<open>text_length\<close> are the
  numbers of characters of \<open>abstract\<close> and \<open>full_text\<close>.
\<close>

theorem result_title_and_lengths:
  "parse_article w p = Some r \<Longrightarrow>
     title r = stem p \<and>
     (\<forall>base ext. name p = base @ [46] @ ext \<and> base \<noteq> [] \<and> ext \<noteq> [] \<and> 46 \<notin> set ext
        \<longrightarrow> title r = base) \<and>
     abstract_length r = length (abstract r) \<and>
     text_length r = length (full_text r)"
proof -
  assume a: "parse_article w p = Some r"
  have t: "title r = stem p" and al: "abstract_length r = length (abstract r)"
    and tl: "text_length r = length (full_text r)"
    using a by (auto simp: parse_article_def split: prod.splits if_splits)
  from t stem_cuts_extension show ?thesis using al tl by metis
qed

theorem result_title_and_lengths_witness:
  "parse_article world_ok example_path \<noteq> None \<and>
   name example_path = py ''paper'' @ [46] @ py ''pdf'' \<and>
   title (the (parse_article world_ok example_path)) = py ''paper'' \<and>
   abstract_length (the (parse_article world_ok example_path)) = 8 \<and>
   text_length (the (parse_article world_ok example_path)) = 9"
proof -
  let ?r = "the (parse_article world_ok example_path)"
  have s: "parse_article world_ok example_path = Some ?r"
    by (simp add: parse_article_world_ok)
  have n: "name example_path = py ''paper'' @ [46] @ py ''pdf''"
    by (simp add: example_path_def py_def)
  have "py ''paper'' \<noteq> [] \<and> py ''pdf'' \<noteq> [] \<and> 46 \<notin> set (py ''pdf'')"
    by (simp add: py_def)
  with result_title_and_lengths [OF s] n have "title ?r = py ''paper''" by blast
  moreover have "abstract_length ?r = length (abstract ?r)" "text_length ?r = length (full_text ?r)"
    using result_title_and_lengths [OF s] by simp_all
  ultimately show ?thesis using n by (simp add: parse_article_world_ok)
qed

section \<open>Faults never leave an operation\<close>

lemma read_pages_fault: "Inl e \<in> set doc \<Longrightarrow> \<exists>e'. read_pages acc doc = Inl e'"
proof (induction doc arbitrary: acc)
  case Nil
  then show ?case by simp
next
  case (Cons p ps)
  then show ?case by (cases p) auto
qed

text \<open>
  C5.  The three operations return plain values, so no fault leaves them as an exception:
  \<open>parse_pdf_to_xml\<close> returns \<open>None\<close> whenever its \<open>try\<close> block raises (the file
  cannot be opened, or the request fails or times out) and on every status other than 200;
  \<open>extract_from_xml\<close> returns an empty abstract and an empty full text when the parser
  raises; \<open>extract_text_with_pymupdf\<close> returns them when the document cannot be opened or
  a page cannot be read.
\<close>

theorem faults_give_no_data:
  "(\<forall>e. try_parse_pdf_to_xml w p = Inl e \<longrightarrow> parse_pdf_to_xml w p = None) \<and>
   (\<forall>e. open_rb w p = Inl e \<longrightarrow> parse_pdf_to_xml w p = None) \<and>
   (\<forall>f e. open_rb w p = Inr f \<and> requests_post w (grobid_request p f) = Inl e \<longrightarrow>
      parse_pdf_to_xml w p = None) \<and>
   (\<forall>f r. open_rb w p = Inr f \<and> requests_post w (grobid_request p f) = Inr r \<and>
      status_code r \<noteq> 200 \<longrightarrow> parse_pdf_to_xml w p = None) \<and>
   (\<forall>e. fromstring w x = Inl e \<longrightarrow>
      abstract (extract_from_xml w x) = [] \<and> full_text (extract_from_xml w x) = []) \<and>
   (\<forall>e. fitz_open w p = Inl e \<longrightarrow>
      abstract (extract_text_with_pymupdf w p) = [] \<and>
      full_text (extract_text_with_pymupdf w p) = []) \<and>
   (\<forall>doc e. fitz_open w p = Inr doc \<and> Inl e \<in> set doc \<longrightarrow>
      abstract (extract_text_with_pymupdf w p) = [] \<and>
      full_text (extract_text_with_pymupdf w p) = [])"
proof -
  have 1: "\<forall>e. try_parse_pdf_to_xml w p = Inl e \<longrightarrow> parse_pdf_to_xml w p = None"
    by (simp add: parse_pdf_to_xml_def)
  have 2: "\<forall>e. open_rb w p = Inl e \<longrightarrow> parse_pdf_to_xml w p = None"
    by (simp add: parse_pdf_to_xml_def try_parse_pdf_to_xml_def)
  have 3: "\<forall>f e. open_rb w p = Inr f \<and> requests_post w (grobid_request p f) = Inl e \<longrightarrow>
      parse_pdf_to_xml w p = None"
    by (simp add: parse_pdf_to_xml_def try_parse_pdf_to_xml_def)
  have 4: "\<forall>f r. open_rb w p = Inr f \<and> requests_post w (grobid_request p f) = Inr r \<and>
      status_code r \<noteq> 200 \<longrightarrow> parse_pdf_to_xml w p = None"
    by (simp add: parse_pdf_to_xml_def try_parse_pdf_to_xml_def)
  have 5: "\<forall>e. fromstring w x = Inl e \<longrightarrow>
      abstract (extract_from_xml w x) = [] \<and> full_text (extract_from_xml w x) = []"
    by (simp add: extract_from_xml_def try_extract_from_xml_def no_data_def)
  have 6: "\<forall>e. fitz_open w p = Inl e \<longrightarrow>
      abstract (extract_text_with_pymupdf w p) = [] \<and>
      full_text (extract_text_with_pymupdf w p) = []"
    by (simp add: extract_text_with_pymupdf_def try_extract_text_with_pymupdf_def no_data_def)
  have 7: "\<forall>doc e. fitz_open w p = Inr doc \<and> Inl e \<in> set doc \<longrightarrow>
      abstract (extract_text_with_pymupdf w p) = [] \<and>
      full_text (extract_text_with_pymupdf w p) = []"
  proof (intro allI impI)
    fix doc e
    assume a: "fitz_open w p = Inr doc \<and> Inl e \<in> set doc"
    then obtain e' where "read_pages [] doc = Inl e'" using read_pages_fault by blast
    with a show "abstract (extract_text_with_pymupdf w p) = [] \<and>
      full_text (extract_text_with_pymupdf w p) = []"
      by (simp add: extract_text_with_pymupdf_def try_extract_text_with_pymupdf_def no_data_def)
  qed
  from 1 2 3 4 5 6 7 show ?thesis by blast
qed

theorem faults_give_no_data_witness:
  "open_rb world_nothing example_path = Inl OSError \<and>
   parse_pdf_to_xml world_nothing example_path = None \<and>
   requests_post world_down (grobid_request example_path (py ''%PDF-1.4'')) = Inl ConnectionError \<and>
   parse_pdf_to_xml world_down example_path = None \<and>
   status_code \<lparr>status_code = 503, resp_text = py ''busy''\<rparr> \<noteq> 200 \<and>
   parse_pdf_to_xml world_503 example_path = None \<and>
   fromstring world_malformed (py ''<<<'') = Inl ParseError \<and>
   abstract (extract_from_xml world_malformed (py ''<<<'')) = [] \<and>
   full_text (extract_from_xml world_malformed (py ''<<<'')) = [] \<and>
   fitz_open world_nothing example_path = Inl FileDataError \<and>
   full_text (extract_text_with_pymupdf world_nothing example_path) = [] \<and>
   fitz_open world_503 example_path = Inr [Inr (py ''a''), Inl RuntimeError] \<and>
   abstract (extract_text_with_pymupdf world_503 example_path) = [] \<and>
   full_text (extract_text_with_pymupdf world_503 example_path) = []"
proof -
  have a: "open_rb world_nothing example_path = Inl OSError"
    by (simp add: world_nothing_def)
  have b: "open_rb world_down example_path = Inr (py ''%PDF-1.4'') \<and>
      requests_post world_down (grobid_request example_path (py ''%PDF-1.4'')) = Inl ConnectionError"
    by (simp add: world_down_def)
  have c: "open_rb world_503 example_path = Inr (py ''%PDF-1.4'') \<and>
      requests_post world_503 (grobid_request example_path (py ''%PDF-1.4'')) =
        Inr \<lparr>status_code = 503, resp_text = py ''busy''\<rparr> \<and>
      status_code \<lparr>status_code = 503, resp_text = py ''busy''\<rparr> \<noteq> 200"
    by (simp add: world_503_def)
  have d: "fromstring world_malformed (py ''<<<'') = Inl ParseError"
    by (simp add: world_malformed_def)
  have e: "fitz_open world_nothing example_path = Inl FileDataError"
    by (simp add: world_nothing_def)
  have f: "fitz_open world_503 example_path = Inr [Inr (py ''a''), Inl RuntimeError] \<and>
      Inl RuntimeError \<in> set [Inr (py ''a''), Inl RuntimeError]"
    by (simp add: world_503_def)
  have "parse_pdf_to_xml world_nothing example_path = None"
    using faults_give_no_data [of world_nothing example_path "py ''<<<''"] a by blast
  moreover have "parse_pdf_to_xml world_down example_path = None"
    using faults_give_no_data [of world_down example_path "py ''<<<''"] b by blast
  moreover have "parse_pdf_to_xml world_503 example_path = None"
    using faults_give_no_data [of world_503 example_path "py ''<<<''"] c by blast
  moreover have "abstract (extract_from_xml world_malformed (py ''<<<'')) = [] \<and>
      full_text (extract_from_xml world_malformed (py ''<<<'')) = []"
    using faults_give_no_data [of world_malformed example_path "py ''<<<''"] d by blast
  moreover have "full_text (extract_text_with_pymupdf world_nothing example_path) = []"
    using faults_give_no_data [of world_nothing example_path "py ''<<<''"] e by blast
  moreover have "abstract (extract_text_with_pymupdf world_503 example_path) = [] \<and>
      full_text (extract_text_with_pymupdf world_503 example_path) = []"
    using faults_give_no_data [of world_503 example_path "py ''<<<''"] f by blast
  ultimately show ?thesis using a b c d e f by simp
qed

section \<open>The text of the heuristic path\<close>

lemma read_pages_texts:
  "read_pages acc (map Inr texts) =
     Inr (acc @ concat (map (\<lambda>t. t @ [10]) (filter (\<lambda>t. py_strip t \<noteq> []) texts)))"
  by (induction texts arbitrary: acc) auto

lemma heuristic_world_down:
  "extract_text_with_pymupdf world_down example_path =
     \<lparr>abstract = [], full_text = py ''a'' @ [10] @ py ''b''\<rparr>"
  by (simp add: extract_text_with_pymupdf_def try_extract_text_with_pymupdf_def world_down_def
      abstract_buffer_def py_strip_def py_isspace_def py_def)

text \<open>
  C9, as amended.  When the document opens and every page can be read, the full text of
  the heuristic path is the texts of the pages that are not blank, in page order, each
  followed by a line feed, with the white space at both ends of the whole removed.
\<close>

theorem heuristic_full_text:
  "fitz_open w p = Inr (map Inr texts) \<Longrightarrow>
     full_text (extract_text_with_pymupdf w p) =
       py_strip (concat (map (\<lambda>t. t @ [10]) (filter (\<lambda>t. py_strip t \<noteq> []) texts)))"
  by (simp add: extract_text_with_pymupdf_def try_extract_text_with_pymupdf_def read_pages_texts)

theorem heuristic_full_text_witness:
  "fitz_open world_down example_path = Inr (map Inr [py ''a'', py ''b'']) \<and>
   full_text (extract_text_with_pymupdf world_down example_path) = py ''a'' @ [10] @ py ''b''"
proof -
  have o: "fitz_open world_down example_path = Inr (map Inr [py ''a'', py ''b''])"
    by (simp add: world_down_def)
  have "full_text (extract_text_with_pymupdf world_down example_path) =
      py_strip (concat (map (\<lambda>t. t @ [10]) (filter (\<lambda>t. py_strip t \<noteq> []) [py ''a'', py ''b''])))"
    by (rule heuristic_full_text [OF o])
  also have "\<dots> = py ''a'' @ [10] @ py ''b''"
    by (simp add: py_strip_def py_isspace_def py_def)
  finally show ?thesis using o by simp
qed

text \<open>
  The claim as stated fails on a document of two pages \<open>a\<close> and \<open>b\<close>: the full text is
  \<open>a\<close>, a line feed and \<open>b\<close>, not the concatenation \<open>ab\<close> of the page texts.
\<close>

theorem heuristic_full_text_counterexample:
  "fitz_open world_down example_path = Inr [Inr (py ''a''), Inr (py ''b'')] \<and>
   py_strip (py ''a'') \<noteq> [] \<and> py_strip (py ''b'') \<noteq> [] \<and>
   full_text (extract_text_with_pymupdf world_down example_path) \<noteq> py ''a'' @ py ''b''"
  by (simp add: heuristic_world_down)
     (simp add: world_down_def py_strip_def py_isspace_def py_def)

section \<open>The heuristic abstract\<close>

text \<open>
  Started on a buffer of at most 500 characters, the scan appends what a prefix of the
  lines gives, and it stops before the last line only with a buffer longer than 500.
\<close>

lemma scan_lines_prefix:
  "length buf \<le> 500 \<Longrightarrow>
   \<exists>k \<le> length ls.
     scan_lines buf ls =
       buf @ concat (map (\<lambda>l. l @ [32]) (filter (\<lambda>l. 50 < length l) (map py_strip (take k ls)))) \<and>
     (\<forall>j < k. length (buf @ concat (map (\<lambda>l. l @ [32])
        (filter (\<lambda>l. 50 < length l) (map py_strip (take j ls))))) \<le> 500) \<and>
     (k < length ls \<longrightarrow> 500 < length (scan_lines buf ls))"
proof (induction ls arbitrary: buf)
  case Nil
  then show ?case by simp
next
  case (Cons l ls)
  let ?f = "\<lambda>xs. concat (map (\<lambda>l. l @ [32]) (filter (\<lambda>l. 50 < length l) (map py_strip xs)))"
  show ?case
  proof (cases "50 < length (py_strip l)")
    case False
    from Cons.IH [OF Cons.prems] obtain k where k: "k \<le> length ls"
      "scan_lines buf ls = buf @ ?f (take k ls)"
      "\<forall>j < k. length (buf @ ?f (take j ls)) \<le> 500"
      "k < length ls \<longrightarrow> 500 < length (scan_lines buf ls)"
      by blast
    have s: "scan_lines buf (l # ls) = scan_lines buf ls" using False by (simp add: Let_def)
    have "\<forall>j < Suc k. length (buf @ ?f (take j (l # ls))) \<le> 500"
    proof (intro allI impI)
      fix j assume "j < Suc k"
      then show "length (buf @ ?f (take j (l # ls))) \<le> 500"
        using k(3) False Cons.prems by (cases j) auto
    qed
    then show ?thesis
      using k False s by (intro exI [of _ "Suc k"]) simp
  next
    case True
    let ?b = "buf @ py_strip l @ [32]"
    show ?thesis
    proof (cases "500 < length ?b")
      case big: True
      have s: "scan_lines buf (l # ls) = ?b" using True big by (auto simp: Let_def)
      have "\<forall>j < Suc 0. length (buf @ ?f (take j (l # ls))) \<le> 500"
        using Cons.prems by simp
      then show ?thesis
        using True big s by (intro exI [of _ "Suc 0"]) simp
    next
      case small: False
      then have le: "length ?b \<le> 500" by simp
      from Cons.IH [OF le] obtain k where k: "k \<le> length ls"
        "scan_lines ?b ls = ?b @ ?f (take k ls)"
        "\<forall>j < k. length (?b @ ?f (take j ls)) \<le> 500"
        "k < length ls \<longrightarrow> 500 < length (scan_lines ?b ls)"
        by blast
      have s: "scan_lines buf (l # ls) = scan_lines ?b ls"
        using True small by (auto simp: Let_def)
      have "\<forall>j < Suc k. length (buf @ ?f (take j (l # ls))) \<le> 500"
      proof (intro allI impI)
        fix j assume "j < Suc k"
        then show "length (buf @ ?f (take j (l # ls))) \<le> 500"
          using k(3) True Cons.prems by (cases j) auto
      qed
      then show ?thesis
        using k True s by (intro exI [of _ "Suc k"]) simp
    qed
  qed
qed

lemma scan_lines_bound:
  "length buf \<le> 500 \<Longrightarrow>
   length (scan_lines buf ls) \<le> 500 \<or>
   (\<exists>l \<in> set ls. length (scan_lines buf ls) \<le> 500 + length (py_strip l) + 1)"
proof (induction ls arbitrary: buf)
  case Nil
  then show ?case by simp
next
  case (Cons l ls)
  show ?case
  proof (cases "50 < length (py_strip l)")
    case False
    then have "scan_lines buf (l # ls) = scan_lines buf ls" by (simp add: Let_def)
    with Cons.IH [OF Cons.prems] show ?thesis by auto
  next
    case True
    let ?b = "buf @ py_strip l @ [32]"
    show ?thesis
    proof (cases "500 < length ?b")
      case big: True
      have "scan_lines buf (l # ls) = ?b" using True big by (auto simp: Let_def)
      then show ?thesis using Cons.prems by auto
    next
      case small: False
      then have le: "length ?b \<le> 500" by simp
      have "scan_lines buf (l # ls) = scan_lines ?b ls"
        using True small by (auto simp: Let_def)
      with Cons.IH [OF le] show ?thesis by auto
    qed
  qed
qed

lemma scan_lines_from_empty:
  "\<exists>k \<le> length ls.
     scan_lines [] ls =
       concat (map (\<lambda>l. l @ [32]) (filter (\<lambda>l. 50 < length l) (map py_strip (take k ls)))) \<and>
     (\<forall>j < k. length (concat (map (\<lambda>l. l @ [32])
        (filter (\<lambda>l. 50 < length l) (map py_strip (take j ls))))) \<le> 500) \<and>
     (k < length ls \<longrightarrow> 500 < length (scan_lines [] ls))"
  using scan_lines_prefix [of "[]" ls] by simp

lemma text_x_lines:
  "take 20 (py_split_nl text_x) = replicate 51 97 # replicate 19 []"
  by (simp add: text_x_def) code_simp

lemma text_y_lines:
  "take 20 (py_split_nl text_y) = replicate 51 97 # replicate 19 []"
  by (simp add: text_y_def) code_simp

lemma buffer_text_x: "abstract_buffer text_x = replicate 51 97 @ [32]"
  unfolding abstract_buffer_def text_x_lines by code_simp

text \<open>
  C4, as amended.  The scan reads the first 20 lines of its input and nothing else.  Each
  line is stripped of the white space at its ends; a stripped line longer than 50
  characters is appended to the buffer, followed by a space.  The buffer is what the
  first \<open>k\<close> of these lines give, for some \<open>k\<close> up to 20; before the last of them was
  appended the buffer was not longer than 500, and when the scan stops before the last
  of the 20 lines the buffer is longer than 500.  So the buffer is longer than 500 by at
  most one stripped line and its space.  The abstract returned is the stripped buffer.
\<close>

theorem abstract_scan:
  "(\<forall>text'. take 20 (py_split_nl text') = take 20 (py_split_nl text) \<longrightarrow>
      abstract_buffer text' = abstract_buffer text) \<and>
   (\<exists>k \<le> min 20 (length (py_split_nl text)).
      abstract_buffer text =
        concat (map (\<lambda>l. l @ [32]) (filter (\<lambda>l. 50 < length l)
          (map py_strip (take k (py_split_nl text))))) \<and>
      (\<forall>j < k. length (concat (map (\<lambda>l. l @ [32]) (filter (\<lambda>l. 50 < length l)
          (map py_strip (take j (py_split_nl text)))))) \<le> 500) \<and>
      (k < min 20 (length (py_split_nl text)) \<longrightarrow> 500 < length (abstract_buffer text))) \<and>
   (length (abstract_buffer text) \<le> 500 \<or>
    (\<exists>l \<in> set (take 20 (py_split_nl text)).
       length (abstract_buffer text) \<le> 500 + length (py_strip l) + 1)) \<and>
   (fitz_open w p = Inr doc \<and> read_pages [] doc = Inr text \<longrightarrow>
      abstract (extract_text_with_pymupdf w p) = py_strip (abstract_buffer text))"
proof -
  let ?ls = "take 20 (py_split_nl text)"
  have 1: "\<forall>text'. take 20 (py_split_nl text') = ?ls \<longrightarrow>
      abstract_buffer text' = abstract_buffer text"
    by (simp add: abstract_buffer_def)
  from scan_lines_from_empty [of ?ls] obtain k where k: "k \<le> length ?ls"
    "scan_lines [] ?ls =
       concat (map (\<lambda>l. l @ [32]) (filter (\<lambda>l. 50 < length l) (map py_strip (take k ?ls))))"
    "\<forall>j < k. length (concat (map (\<lambda>l. l @ [32])
        (filter (\<lambda>l. 50 < length l) (map py_strip (take j ?ls))))) \<le> 500"
    "k < length ?ls \<longrightarrow> 500 < length (scan_lines [] ?ls)"
    by blast
  have k20: "k \<le> 20" using k(1) by simp
  then have tk: "take k ?ls = take k (py_split_nl text)" by (simp add: min_def)
  have tj: "\<forall>j < k. take j ?ls = take j (py_split_nl text)"
    using k20 by (simp add: min_def)
  have 2: "\<exists>k \<le> min 20 (length (py_split_nl text)).
      abstract_buffer text =
        concat (map (\<lambda>l. l @ [32]) (filter (\<lambda>l. 50 < length l)
          (map py_strip (take k (py_split_nl text))))) \<and>
      (\<forall>j < k. length (concat (map (\<lambda>l. l @ [32]) (filter (\<lambda>l. 50 < length l)
          (map py_strip (take j (py_split_nl text)))))) \<le> 500) \<and>
      (k < min 20 (length (py_split_nl text)) \<longrightarrow> 500 < length (abstract_buffer text))"
  proof (intro exI [of _ k] conjI)
    show "k \<le> min 20 (length (py_split_nl text))" using k(1) by simp
    show "abstract_buffer text =
        concat (map (\<lambda>l. l @ [32]) (filter (\<lambda>l. 50 < length l)
          (map py_strip (take k (py_split_nl text)))))"
      using k(2) tk by (simp add: abstract_buffer_def)
    show "\<forall>j < k. length (concat (map (\<lambda>l. l @ [32]) (filter (\<lambda>l. 50 < length l)
          (map py_strip (take j (py_split_nl text)))))) \<le> 500"
      using k(3) tj by simp
    show "k < min 20 (length (py_split_nl text)) \<longrightarrow> 500 < length (abstract_buffer text)"
      using k(4) by (simp add: abstract_buffer_def)
  qed
  have 3: "length (abstract_buffer text) \<le> 500 \<or>
    (\<exists>l \<in> set ?ls. length (abstract_buffer text) \<le> 500 + length (py_strip l) + 1)"
    using scan_lines_bound [of "[]" ?ls] by (simp add: abstract_buffer_def)
  have 4: "fitz_open w p = Inr doc \<and> read_pages [] doc = Inr text \<longrightarrow>
      abstract (extract_text_with_pymupdf w p) = py_strip (abstract_buffer text)"
    by (simp add: extract_text_with_pymupdf_def try_extract_text_with_pymupdf_def)
  from 1 2 3 4 show ?thesis by blast
qed

theorem abstract_scan_witness:
  "take 20 (py_split_nl text_y) = take 20 (py_split_nl text_x) \<and>
   text_y \<noteq> text_x \<and>
   abstract_buffer text_y = abstract_buffer text_x \<and>
   abstract_buffer text_x = replicate 51 97 @ [32]"
proof -
  have e: "take 20 (py_split_nl text_y) = take 20 (py_split_nl text_x)"
    by (simp add: text_x_lines text_y_lines)
  have "abstract_buffer text_y = abstract_buffer text_x"
    using abstract_scan [of text_x world_down example_path "[]"] e by blast
  moreover have "text_y \<noteq> text_x" by (simp add: text_x_def text_y_def)
  ultimately show ?thesis using e buffer_text_x by simp
qed

text \<open>
  The claim as stated fails on a line with white space at an end: the only line of the
  input is not empty and has 51 characters, and nothing is appended for it, since the
  stripped line has 49.
\<close>

theorem abstract_scan_counterexample:
  "py_split_nl padded_line = [padded_line] \<and> padded_line \<noteq> [] \<and>
   50 < length padded_line \<and> abstract_buffer padded_line = [] \<and>
   abstract_buffer padded_line \<noteq> padded_line @ [32]"
proof -
  have "py_split_nl padded_line = [padded_line]"
    unfolding padded_line_def by code_simp
  moreover have "abstract_buffer padded_line = []"
    unfolding padded_line_def by code_simp
  moreover have "padded_line \<noteq> []" "50 < length padded_line"
    by (simp_all add: padded_line_def)
  ultimately show ?thesis by simp
qed

section \<open>The rounding errors of the success rate\<close>

lemma round_half_even_error: "\<bar>of_int (round_half_even x) - x\<bar> \<le> 1 / 2"
proof -
  have "of_int \<lfloor>x\<rfloor> \<le> x" "x < of_int \<lfloor>x\<rfloor> + 1" by linarith+
  then show ?thesis by (auto simp: round_half_even_def Let_def)
qed

lemma round_half_even_nonneg: "0 \<le> x \<Longrightarrow> 0 \<le> round_half_even x"
proof -
  assume "0 \<le> x"
  then have "0 \<le> \<lfloor>x\<rfloor>" by simp
  then show ?thesis by (auto simp: round_half_even_def Let_def)
qed

lemma floor_log2_le:
  assumes "0 < x"
  shows "power_int 2 (floor_log2 x) \<le> x"
proof -
  obtain p q where pq: "quotient_of x = (p, q)" by (cases "quotient_of x")
  then have q: "0 < q" by (rule quotient_of_denom_pos)
  from pq have x: "x = of_int p / of_int q" by (rule quotient_of_div)
  with assms q have p: "0 < p" by (simp add: zero_less_divide_iff)
  let ?d = "bitlen p - bitlen q"
  show ?thesis
  proof (cases "power_int 2 ?d \<le> x")
    case True
    then show ?thesis by (simp add: floor_log2_def pq Let_def)
  next
    case False
    have bp: "(2::int) ^ nat (bitlen p - 1) \<le> p" using bitlen_bounds [OF p] by simp
    have bq: "q < (2::int) ^ nat (bitlen q)" using bitlen_bounds [OF q] by simp
    have bp1: "1 \<le> bitlen p" using p by (simp add: bitlen_def floorlog_def)
    have bq0: "0 \<le> bitlen q" by (rule bitlen_nonneg)
    have "(2::rat) ^ nat (bitlen p - 1) \<le> of_int p"
      using bp by (metis of_int_le_iff of_int_numeral of_int_power)
    moreover have "(of_int q :: rat) \<le> 2 ^ nat (bitlen q)"
      using bq by (metis less_imp_le of_int_le_iff of_int_numeral of_int_power)
    ultimately have "(2::rat) ^ nat (bitlen p - 1) / 2 ^ nat (bitlen q) \<le> of_int p / of_int q"
      using q p by (intro frac_le) simp_all
    moreover have "power_int (2::rat) (?d - 1) = 2 ^ nat (bitlen p - 1) / 2 ^ nat (bitlen q)"
    proof -
      have "?d - 1 = int (nat (bitlen p - 1)) - int (nat (bitlen q))"
        using bp1 bq0 by simp
      then have "power_int (2::rat) (?d - 1) =
          power_int 2 (int (nat (bitlen p - 1))) / power_int 2 (int (nat (bitlen q)))"
        by (simp add: power_int_diff)
      then show ?thesis by (simp only: power_int_of_nat)
    qed
    ultimately have "power_int 2 (?d - 1) \<le> x" using x by simp
    with False show ?thesis by (simp add: floor_log2_def pq Let_def)
  qed
qed

lemma round_binary64_error:
  assumes "0 < x"
  shows "\<bar>round_binary64 x - x\<bar> \<le> x / 2 ^ 53"
proof -
  let ?e = "floor_log2 x - 52"
  let ?P = "power_int (2::rat) ?e"
  have P: "0 < ?P" by (simp add: zero_less_power_int)
  have "?P = power_int 2 (floor_log2 x) / 2 ^ 52"
    by (simp add: power_int_diff)
  with floor_log2_le [OF assms] have Px: "?P \<le> x / 2 ^ 52"
    by (simp add: divide_right_mono)
  have "round_binary64 x - x = (of_int (round_half_even (x / ?P)) - x / ?P) * ?P"
    using assms P by (simp add: round_binary64_def Let_def algebra_simps)
  then have "\<bar>round_binary64 x - x\<bar> = \<bar>of_int (round_half_even (x / ?P)) - x / ?P\<bar> * ?P"
    using P by (simp add: abs_mult)
  also have "\<dots> \<le> (1 / 2) * ?P"
    using round_half_even_error [of "x / ?P"] P by (intro mult_right_mono) simp_all
  also have "\<dots> \<le> (1 / 2) * (x / 2 ^ 52)"
    using Px by simp
  also have "\<dots> = x / 2 ^ 53" by simp
  finally show ?thesis .
qed

lemma round_binary64_nonneg: "0 \<le> x \<Longrightarrow> 0 \<le> round_binary64 x"
  by (simp add: round_binary64_def Let_def round_half_even_nonneg zero_le_power_int)

lemma rate_error:
  assumes "0 < n" "n \<le> m"
  shows "\<bar>of_int (round_half_even
            (round_binary64 (round_binary64 (of_nat n / of_nat m) * 100) * 10)) -
          1000 * of_nat n / of_nat m\<bar> \<le> (1 / 2 + 1 / 2 ^ 40 :: rat)"
proof -
  define q :: rat where "q = of_nat n / of_nat m"
  define q' where "q' = round_binary64 q"
  define z where "z = q' * 100"
  define z' where "z' = round_binary64 z"
  have m: "0 < m" using assms by simp
  have q0: "0 < q" using assms m by (simp add: q_def)
  have q1: "q \<le> 1" using assms m by (simp add: q_def)
  have eq: "\<bar>q' - q\<bar> \<le> q / 2 ^ 53"
    unfolding q'_def by (rule round_binary64_error [OF q0])
  have "q / 2 ^ 53 \<le> 1 / 2 ^ 53" using q1 by (simp add: divide_right_mono)
  with eq have eq1: "\<bar>q' - q\<bar> \<le> 1 / 2 ^ 53" by linarith
  have "q / 2 ^ 53 < q" using q0 by simp
  with eq have q'0: "0 < q'" by linarith
  have q'1: "q' \<le> 1 + 1 / 2 ^ 53" using eq1 q1 by linarith
  have z0: "0 < z" using q'0 by (simp add: z_def)
  have ez: "\<bar>z' - z\<bar> \<le> z / 2 ^ 53"
    unfolding z'_def by (rule round_binary64_error [OF z0])
  have "z \<le> 100 * (1 + 1 / 2 ^ 53)" using q'1 by (simp add: z_def)
  then have "z / 2 ^ 53 \<le> 100 * (1 + 1 / 2 ^ 53) / 2 ^ 53"
    by (simp add: divide_right_mono)
  with ez have ez1: "\<bar>z' - z\<bar> \<le> 100 * (1 + 1 / 2 ^ 53) / 2 ^ 53" by linarith
  have "z' * 10 - 1000 * q = 10 * (z' - z) + 1000 * (q' - q)"
    by (simp add: z_def algebra_simps)
  then have "\<bar>z' * 10 - 1000 * q\<bar> = \<bar>10 * (z' - z) + 1000 * (q' - q)\<bar>"
    by simp
  also have "\<dots> \<le> \<bar>10 * (z' - z)\<bar> + \<bar>1000 * (q' - q)\<bar>"
    by (rule abs_triangle_ineq)
  also have "\<dots> = 10 * \<bar>z' - z\<bar> + 1000 * \<bar>q' - q\<bar>"
    by (simp only: abs_mult abs_numeral)
  also have "\<dots> \<le> 10 * (100 * (1 + 1 / 2 ^ 53) / 2 ^ 53) + 1000 * (1 / 2 ^ 53)"
    using ez1 eq1 by (intro add_mono mult_left_mono) simp_all
  also have "\<dots> \<le> 1 / 2 ^ 40" by simp
  finally have e10: "\<bar>z' * 10 - 1000 * q\<bar> \<le> 1 / 2 ^ 40" .
  have "\<bar>of_int (round_half_even (z' * 10)) - z' * 10\<bar> \<le> 1 / 2"
    by (rule round_half_even_error)
  with e10 have "\<bar>of_int (round_half_even (z' * 10)) - 1000 * q\<bar> \<le> 1 / 2 + 1 / 2 ^ 40"
    by linarith
  then show ?thesis by (simp add: z'_def z_def q'_def q_def)
qed

lemma rate_tenths:
  assumes "0 < n" "n \<le> m"
  shows "\<exists>t. format_1f (round_binary64 (round_binary64 (of_nat n / of_nat m) * 100)) =
           digits (t div 10) @ [46] @ digits (t mod 10) \<and>
         \<bar>of_nat t - 1000 * of_nat n / of_nat m\<bar> \<le> (1 / 2 + 1 / 2 ^ 40 :: rat)"
proof -
  let ?y = "round_binary64 (round_binary64 (of_nat n / of_nat m) * 100)"
  let ?t = "nat (round_half_even (?y * 10))"
  have "0 \<le> ?y" by (intro round_binary64_nonneg mult_nonneg_nonneg) simp_all
  then have "0 \<le> round_half_even (?y * 10)" by (intro round_half_even_nonneg) simp
  then have "(of_nat ?t :: rat) = of_int (round_half_even (?y * 10))" by simp
  with rate_error [OF assms] have "\<bar>of_nat ?t - 1000 * of_nat n / of_nat m\<bar> \<le> (1 / 2 + 1 / 2 ^ 40 :: rat)"
    by simp
  moreover have "format_1f ?y = digits (?t div 10) @ [46] @ digits (?t mod 10)"
    by (simp add: format_1f_def Let_def)
  ultimately show ?thesis by blast
qed

section \<open>Text after a child element\<close>

text \<open>
  C3.  On the example response the body is found and its fragments are joined with
  spaces in document order, but the text that follows the reference inside the paragraph,
  which the parser keeps as the tail of the \<open>ref\<close> element, is left out: the full text is
  \<open>Hello [1]\<close> and not \<open>Hello [1] world\<close>.
\<close>

theorem body_text_without_tails:
  "fromstring world_ok example_xml = Inr example_tree \<and>
   find_body example_tree = Some example_body \<and>
   map elem_tail (iter example_body) = [None, None, Some (py '' world'')] \<and>
   text_parts (iter example_body) = [py ''Hello'', py ''[1]''] \<and>
   extract_from_xml world_ok example_xml =
     \<lparr>abstract = py ''Foo bar.'', full_text = py ''Hello [1]''\<rparr> \<and>
   full_text (extract_from_xml world_ok example_xml) \<noteq> py ''Hello [1] world''"
proof -
  have "fromstring world_ok example_xml = Inr example_tree"
    by (simp add: world_ok_def)
  moreover have "find_body example_tree = Some example_body"
    by (simp add: find_body_def descendants_def find_first_def example_tree_def
        example_body_def tei_inj)
  moreover have "map elem_tail (iter example_body) = [None, None, Some (py '' world'')]"
    by (simp add: example_body_def)
  moreover have "text_parts (iter example_body) = [py ''Hello'', py ''[1]'']"
    by (simp add: example_body_def py_strip_def py_isspace_def py_def)
  moreover have "extract_from_xml world_ok example_xml =
     \<lparr>abstract = py ''Foo bar.'', full_text = py ''Hello [1]''\<rparr>"
    by (simp add: extract_from_xml_def try_extract_from_xml_def world_ok_def extract_example_tree)
  moreover have "py ''Hello [1]'' \<noteq> py ''Hello [1] world''"
    by (simp add: py_def)
  ultimately show ?thesis by simp
qed

section \<open>A response that is not XML\<close>

lemma fallback_world_malformed:
  "extract_with_fallback world_malformed example_path = (\<lparr>abstract = [], full_text = []\<rparr>, GROBID)"
  by (simp add: extract_with_fallback_def parse_pdf_to_xml_def try_parse_pdf_to_xml_def
      extract_from_xml_def try_extract_from_xml_def world_malformed_def no_data_def py_def)

lemma heuristic_world_malformed:
  "extract_text_with_pymupdf world_malformed example_path =
     \<lparr>abstract = [], full_text = py ''hello''\<rparr>"
  by (simp add: extract_text_with_pymupdf_def try_extract_text_with_pymupdf_def
      world_malformed_def abstract_buffer_def py_strip_def py_isspace_def py_def)

text \<open>
  C1.  The service answers 200 with a body the parser rejects, and the PDF has a page of
  text.  \<open>parse_article\<close> takes the data of the structured path, which is empty, and
  returns \<open>None\<close>; the heuristic path, which would have found the text, is not tried.
\<close>

theorem malformed_response_not_retried:
  "parse_pdf_to_xml world_malformed example_path = Some (py ''<<<'') \<and>
   fromstring world_malformed (py ''<<<'') = Inl ParseError \<and>
   extract_with_fallback world_malformed example_path =
     (\<lparr>abstract = [], full_text = []\<rparr>, GROBID) \<and>
   parse_article world_malformed example_path = None \<and>
   extract_text_with_pymupdf world_malformed example_path =
     \<lparr>abstract = [], full_text = py ''hello''\<rparr>"
proof -
  have "parse_pdf_to_xml world_malformed example_path = Some (py ''<<<'')"
    by (simp add: parse_pdf_to_xml_def try_parse_pdf_to_xml_def world_malformed_def)
  moreover have "fromstring world_malformed (py ''<<<'') = Inl ParseError"
    by (simp add: world_malformed_def)
  moreover have "parse_article world_malformed example_path = None"
    by (simp add: parse_article_def fallback_world_malformed)
  ultimately show ?thesis
    by (simp add: fallback_world_malformed heuristic_world_malformed)
qed

section \<open>Emission and failure\<close>

lemma operations_ignore_disk:
  "parse_pdf_to_xml (w\<lparr>write_json := f\<rparr>) p = parse_pdf_to_xml w p"
  "extract_from_xml (w\<lparr>write_json := f\<rparr>) x = extract_from_xml w x"
  "extract_text_with_pymupdf (w\<lparr>write_json := f\<rparr>) p = extract_text_with_pymupdf w p"
  by (simp_all add: parse_pdf_to_xml_def try_parse_pdf_to_xml_def extract_from_xml_def
      try_extract_from_xml_def extract_text_with_pymupdf_def try_extract_text_with_pymupdf_def
      cong: sum.case_cong)

lemma fallback_ignores_disk:
  "extract_with_fallback (w\<lparr>write_json := f\<rparr>) p = extract_with_fallback w p"
  by (auto simp: extract_with_fallback_def operations_ignore_disk split: option.splits)

lemma parse_article_ignores_disk:
  "parse_article (w\<lparr>write_json := f\<rparr>) p = parse_article w p"
  by (simp add: parse_article_def fallback_ignores_disk)

lemma advance_ignores_disk: "advance (w\<lparr>write_json := f\<rparr>) s p = advance w s p"
  by (simp add: advance_def parse_article_ignores_disk)

lemma process_completed: "process w n i s p = Inr s' \<Longrightarrow> s' = advance w s p"
  by (auto simp: process_def split: option.splits)

text \<open>
  C2.  \<open>parse_article\<close> returns \<open>None\<close> exactly when the data of the path that ran has
  an empty abstract and an empty full text; a result it emits carries that data, so its
  abstract and full text are never both empty, and an iteration that completes appends it
  to the results.  On \<open>None\<close> an iteration that completes counts the document as failed
  and leaves the results and the output directory as they were; the iteration does not
  depend on what writing a file would do; and it completes when its two prints do.
\<close>

theorem emitted_iff_some_text:
  "(parse_article w p = None \<longleftrightarrow>
      abstract (fst (extract_with_fallback w p)) = [] \<and>
      full_text (fst (extract_with_fallback w p)) = []) \<and>
   (\<forall>r. parse_article w p = Some r \<longrightarrow>
      abstract r = abstract (fst (extract_with_fallback w p)) \<and>
      full_text r = full_text (fst (extract_with_fallback w p)) \<and>
      (abstract r \<noteq> [] \<or> full_text r \<noteq> []) \<and>
      (\<forall>s'. process w n i s p = Inr s' \<longrightarrow>
         results s' = results s @ [r] \<and> failed s' = failed s)) \<and>
   (parse_article w p = None \<longrightarrow>
      (\<forall>s'. process w n i s p = Inr s' \<longrightarrow>
         failed s' = failed s + 1 \<and> results s' = results s \<and> output_dir s' = output_dir s) \<and>
      (\<forall>f. process (w\<lparr>write_json := f\<rparr>) n i s p = process w n i s p) \<and>
      (console w (Processing i n (name p)) = None \<and> console w (NotExtracted (name p)) = None
         \<longrightarrow> process w n i s p = Inr (s\<lparr>failed := failed s + 1\<rparr>)))"
proof -
  have 1: "parse_article w p = None \<longleftrightarrow>
      abstract (fst (extract_with_fallback w p)) = [] \<and>
      full_text (fst (extract_with_fallback w p)) = []"
    by (auto simp: parse_article_def split: prod.splits if_splits)
  have 2: "\<forall>r. parse_article w p = Some r \<longrightarrow>
      abstract r = abstract (fst (extract_with_fallback w p)) \<and>
      full_text r = full_text (fst (extract_with_fallback w p)) \<and>
      (abstract r \<noteq> [] \<or> full_text r \<noteq> [])"
    by (auto simp: parse_article_def split: prod.splits if_splits)
  have 3: "\<forall>r. parse_article w p = Some r \<longrightarrow>
      (\<forall>s'. process w n i s p = Inr s' \<longrightarrow>
         results s' = results s @ [r] \<and> failed s' = failed s)"
    by (auto dest!: process_completed simp: advance_def Let_def)
  have 4: "parse_article w p = None \<longrightarrow>
      (\<forall>s'. process w n i s p = Inr s' \<longrightarrow>
         failed s' = failed s + 1 \<and> results s' = results s \<and> output_dir s' = output_dir s)"
    by (auto dest!: process_completed simp: advance_def)
  have 5: "parse_article w p = None \<longrightarrow>
      (\<forall>f. process (w\<lparr>write_json := f\<rparr>) n i s p = process w n i s p)"
    by (auto simp: process_def advance_ignores_disk parse_article_ignores_disk
        split: option.splits)
  have 6: "parse_article w p = None \<longrightarrow>
      (console w (Processing i n (name p)) = None \<and> console w (NotExtracted (name p)) = None
         \<longrightarrow> process w n i s p = Inr (s\<lparr>failed := failed s + 1\<rparr>))"
    by (simp add: process_def advance_def)
  from 1 2 3 4 5 6 show ?thesis by blast
qed

theorem emitted_iff_some_text_witness:
  "parse_article world_ok example_path \<noteq> None \<and>
   \<not> (abstract (the (parse_article world_ok example_path)) = [] \<and>
      full_text (the (parse_article world_ok example_path)) = []) \<and>
   parse_article world_nothing example_path = None \<and>
   abstract (fst (extract_with_fallback world_nothing example_path)) = [] \<and>
   full_text (fst (extract_with_fallback world_nothing example_path)) = [] \<and>
   console world_nothing (Processing 1 1 (name example_path)) = None \<and>
   console world_nothing (NotExtracted (name example_path)) = None \<and>
   process world_nothing 1 1 (initial_state empty_dir) example_path =
     Inr ((initial_state empty_dir)\<lparr>failed := failed (initial_state empty_dir) + 1\<rparr>)"
proof -
  let ?r = "the (parse_article world_ok example_path)"
  let ?s = "initial_state empty_dir"
  have s: "parse_article world_ok example_path = Some ?r"
    by (simp add: parse_article_world_ok)
  have s': "parse_article world_ok example_path \<noteq> None"
    by (simp add: parse_article_world_ok)
  have n: "parse_article world_nothing example_path = None"
    by (rule parse_article_world_nothing)
  have c: "console world_nothing (Processing 1 1 (name example_path)) = None \<and>
      console world_nothing (NotExtracted (name example_path)) = None"
    by (simp add: world_nothing_def)
  have a: "abstract ?r \<noteq> [] \<or> full_text ?r \<noteq> []"
    using emitted_iff_some_text [of world_ok example_path 1 1 ?s] s by blast
  have b: "abstract (fst (extract_with_fallback world_nothing example_path)) = [] \<and>
      full_text (fst (extract_with_fallback world_nothing example_path)) = []"
    using emitted_iff_some_text [of world_nothing example_path 1 1 ?s] n by blast
  have d: "process world_nothing 1 1 ?s example_path = Inr (?s\<lparr>failed := failed ?s + 1\<rparr>)"
    using emitted_iff_some_text [of world_nothing example_path 1 1 ?s] n c by blast
  from s' n a b c d show ?thesis by blast
qed

section \<open>The batch loop\<close>

lemma advance_counts:
  "length (results (advance w s p)) + failed (advance w s p) = Suc (length (results s) + failed s)"
  "grobid_success (advance w s p) + pymupdf_success (advance w s p) + failed (advance w s p) =
     Suc (grobid_success s + pymupdf_success s + failed s)"
  by (auto simp: advance_def Let_def split: option.splits)

lemma loop_counts:
  "length (results (foldl (advance w) s ps)) + failed (foldl (advance w) s ps) =
     length (results s) + failed s + length ps"
  "grobid_success (foldl (advance w) s ps) + pymupdf_success (foldl (advance w) s ps) +
     failed (foldl (advance w) s ps) =
     grobid_success s + pymupdf_success s + failed s + length ps"
  by (induction ps arbitrary: s) (simp_all add: advance_counts)

lemma completed_loop_counts:
  "length (results (completed_loop w fs d)) + failed (completed_loop w fs d) = length fs"
  "grobid_success (completed_loop w fs d) + pymupdf_success (completed_loop w fs d) +
     failed (completed_loop w fs d) = length fs"
  using loop_counts [of w "initial_state d" fs]
  by (simp_all add: completed_loop_def initial_state_def)

text \<open>A loop or a run that returns has left the state of the completed one.\<close>

lemma run_loop_completed: "run_loop w n i s ps = Inr s' \<Longrightarrow> s' = foldl (advance w) s ps"
proof (induction ps arbitrary: i s)
  case Nil
  then show ?case by simp
next
  case (Cons p ps)
  then show ?case by (auto split: sum.splits dest: process_completed)
qed

lemma main_loop_completed: "main_loop w fs d = Inr s \<Longrightarrow> s = completed_loop w fs d"
  by (simp add: main_loop_def completed_loop_def run_loop_completed)

lemma rate_defined:
  "results (completed_loop w fs d) \<noteq> [] \<Longrightarrow> length fs \<noteq> 0"
  using completed_loop_counts(1) [of w fs d] by (cases fs) auto

lemma main_completed:
  assumes "main w fs d = Inr s"
  shows "s = completed_main w fs d"
proof -
  from assms obtain L where L: "main_loop w fs d = Inr L"
    by (auto simp: main_def split: option.splits sum.splits)
  then have eq: "L = completed_loop w fs d" by (rule main_loop_completed)
  show ?thesis
  proof (cases "results L = []")
    case True
    with assms L eq show ?thesis
      by (auto simp: main_def completed_main_def split: option.splits)
  next
    case False
    with eq have "length fs \<noteq> 0" using rate_defined by blast
    with assms L eq False show ?thesis
      by (auto simp: main_def completed_main_def make_stats_def success_rate_of_def Let_def
          split: option.splits)
  qed
qed

text \<open>A run in which creating the directory, the prints and the writes do not raise returns.\<close>

lemma prints_quiet: "\<forall>l. console w l = None \<Longrightarrow> prints w ls = None"
  by (induction ls) simp_all

lemma process_quiet:
  "\<forall>l. console w l = None \<Longrightarrow> \<forall>f c. write_json w f c = None \<Longrightarrow>
   process w n i s p = Inr (advance w s p)"
  by (simp add: process_def split: option.splits)

lemma run_loop_quiet:
  "\<forall>l. console w l = None \<Longrightarrow> \<forall>f c. write_json w f c = None \<Longrightarrow>
   run_loop w n i s ps = Inr (foldl (advance w) s ps)"
  by (induction ps arbitrary: i s) (simp_all add: process_quiet)

lemma main_quiet:
  assumes "mkdir w = None" "\<forall>l. console w l = None" "\<forall>f c. write_json w f c = None"
  shows "main w fs d = Inr (completed_main w fs d)"
proof -
  have L: "main_loop w fs d = Inr (completed_loop w fs d)"
    using assms(2,3) by (simp add: main_loop_def completed_loop_def run_loop_quiet)
  show ?thesis
  proof (cases "results (completed_loop w fs d) = []")
    case True
    with assms L show ?thesis
      by (simp add: main_def completed_main_def prints_quiet)
  next
    case False
    then have "length fs \<noteq> 0" by (rule rate_defined)
    with assms L False show ?thesis
      by (simp add: main_def completed_main_def make_stats_def success_rate_of_def Let_def
          prints_quiet)
  qed
qed

lemma completed_main_results:
  "results (completed_main w fs d) = results (completed_loop w fs d)"
  "failed (completed_main w fs d) = failed (completed_loop w fs d)"
  "grobid_success (completed_main w fs d) = grobid_success (completed_loop w fs d)"
  "pymupdf_success (completed_main w fs d) = pymupdf_success (completed_loop w fs d)"
  by (simp_all add: completed_main_def Let_def)

lemma batch_results:
  "map title (results (completed_loop world_batch batch empty_dir)) = [py ''a'', py ''b''] \<and>
   map method_of (results (completed_loop world_batch batch empty_dir)) = [GROBID, GROBID] \<and>
   failed (completed_loop world_batch batch empty_dir) = 1 \<and>
   grobid_success (completed_loop world_batch batch empty_dir) = 2 \<and>
   pymupdf_success (completed_loop world_batch batch empty_dir) = 0"
  by (simp add: completed_loop_def batch_def initial_state_def advance_def parse_article_def
      extract_with_fallback_def parse_pdf_to_xml_def try_parse_pdf_to_xml_def
      extract_from_xml_def try_extract_from_xml_def extract_text_with_pymupdf_def
      try_extract_text_with_pymupdf_def no_data_def world_batch_def extract_example_tree)
     (simp add: stem_def py_rfind_def py_def example_xml_def)

lemma world_batch_quiet:
  "mkdir world_batch = None \<and> (\<forall>l. console world_batch l = None) \<and>
   (\<forall>f c. write_json world_batch f c = None)"
  by (simp add: world_batch_def)

text \<open>
  C10.  When the loop is over, the number of results and the number of failed documents
  add up to the number of documents listed, and so they do in the state a run returns.
  When the statistics are written, \<open>successful\<close> plus \<open>failed\<close> is \<open>total_files\<close>.
  A run returns when creating the directory, the prints and the writes do not raise.
\<close>

theorem successful_plus_failed:
  "(\<forall>s. main_loop w fs d = Inr s \<longrightarrow> length (results s) + failed s = length fs) \<and>
   (\<forall>s. main w fs d = Inr s \<longrightarrow>
      length (results s) + failed s = length fs \<and>
      (results s \<noteq> [] \<longrightarrow>
         (\<exists>st. output_dir s (py ''parsing_statistics.json'') = Some (StatsJson st) \<and>
            successful st = length (results s) \<and> failed st = failed s \<and>
            total_files st = length fs \<and>
            successful st + failed st = total_files st))) \<and>
   (mkdir w = None \<and> (\<forall>l. console w l = None) \<and> (\<forall>f c. write_json w f c = None) \<longrightarrow>
      (\<exists>s. main w fs d = Inr s))"
proof -
  have 1: "\<forall>s. main_loop w fs d = Inr s \<longrightarrow> length (results s) + failed s = length fs"
    using completed_loop_counts(1) [of w fs d] by (auto dest: main_loop_completed)
  have 2: "\<forall>s. main w fs d = Inr s \<longrightarrow>
      length (results s) + failed s = length fs \<and>
      (results s \<noteq> [] \<longrightarrow>
         (\<exists>st. output_dir s (py ''parsing_statistics.json'') = Some (StatsJson st) \<and>
            successful st = length (results s) \<and> failed st = failed s \<and>
            total_files st = length fs \<and>
            successful st + failed st = total_files st))"
  proof (intro allI impI)
    fix s assume "main w fs d = Inr s"
    then have s: "s = completed_main w fs d" by (rule main_completed)
    show "length (results s) + failed s = length fs \<and>
      (results s \<noteq> [] \<longrightarrow>
         (\<exists>st. output_dir s (py ''parsing_statistics.json'') = Some (StatsJson st) \<and>
            successful st = length (results s) \<and> failed st = failed s \<and>
            total_files st = length fs \<and>
            successful st + failed st = total_files st))"
      unfolding s using completed_loop_counts(1) [of w fs d]
      by (auto simp: completed_main_def Let_def)
  qed
  have 3: "mkdir w = None \<and> (\<forall>l. console w l = None) \<and> (\<forall>f c. write_json w f c = None) \<longrightarrow>
      (\<exists>s. main w fs d = Inr s)"
    using main_quiet by blast
  from 1 2 3 show ?thesis by blast
qed

theorem successful_plus_failed_witness:
  "\<exists>s. main world_batch batch empty_dir = Inr s \<and>
     results s \<noteq> [] \<and> length (results s) = 2 \<and> failed s = 1 \<and> length batch = 3 \<and>
     (\<exists>st. output_dir s (py ''parsing_statistics.json'') = Some (StatsJson st) \<and>
        successful st = 2 \<and> failed st = 1 \<and> total_files st = 3)"
proof -
  note t = successful_plus_failed [of world_batch batch empty_dir]
  from t world_batch_quiet obtain s where s: "main world_batch batch empty_dir = Inr s"
    by blast
  have r: "results s = results (completed_loop world_batch batch empty_dir)"
    "failed s = failed (completed_loop world_batch batch empty_dir)"
    using main_completed [OF s] by (simp_all add: completed_main_results)
  have l: "length (results s) = 2"
    using r(1) batch_results by (metis length_map length_Cons list.size(3) One_nat_def Suc_1)
  then have ne: "results s \<noteq> []" by auto
  have f: "failed s = 1" using r(2) batch_results by simp
  have b: "length batch = 3" by (simp add: batch_def)
  from t s ne obtain st where
    "output_dir s (py ''parsing_statistics.json'') = Some (StatsJson st)"
    "successful st = length (results s)" "failed st = failed s" "total_files st = length batch"
    by blast
  then show ?thesis using s ne l f b by auto
qed

section \<open>The files of the output directory\<close>

lemma loop_results:
  "results (foldl (advance w) s ps) = results s @ List.map_filter (parse_article w) ps"
  by (induction ps arbitrary: s)
     (auto simp: advance_def Let_def List.map_filter_simps split: option.splits)

lemma completed_loop_results:
  "results (completed_loop w fs d) = List.map_filter (parse_article w) fs"
  by (simp add: completed_loop_def loop_results initial_state_def)

lemma loop_no_results:
  "results (foldl (advance w) s ps) = [] \<Longrightarrow> output_dir (foldl (advance w) s ps) = output_dir s"
proof (induction ps arbitrary: s)
  case Nil
  then show ?case by simp
next
  case (Cons p ps)
  from Cons.prems have "results (advance w s p) = []"
    by (simp add: loop_results)
  then have "output_dir (advance w s p) = output_dir s"
    by (auto simp: advance_def Let_def split: option.splits if_splits)
  with Cons show ?case by simp
qed

text \<open>The name of a per-document file ends in one of the two method names.\<close>

lemma article_filename_mark:
  "rev (article_filename r) ! 5 = (case method_of r of GROBID \<Rightarrow> 68 | PyMuPDF \<Rightarrow> 70)"
  by (cases "method_of r") (simp_all add: article_filename_def method_name_def py_def nth_append)

lemma article_filename_not_summary:
  "article_filename r \<noteq> py ''all_articles.json''"
  "article_filename r \<noteq> py ''parsing_statistics.json''"
proof -
  have "rev (py ''all_articles.json'') ! 5 = 115" "rev (py ''parsing_statistics.json'') ! 5 = 115"
    by (simp_all add: py_def)
  moreover have "rev (article_filename r) ! 5 \<noteq> 115"
    by (cases "method_of r") (simp_all add: article_filename_mark)
  ultimately show "article_filename r \<noteq> py ''all_articles.json''"
    "article_filename r \<noteq> py ''parsing_statistics.json''"
    by metis+
qed

lemma article_filename_inj:
  assumes "article_filename r = article_filename r'"
  shows "title r = title r'"
proof -
  from assms have "rev (article_filename r) ! 5 = rev (article_filename r') ! 5" by simp
  then have "method_of r = method_of r'"
    by (cases "method_of r"; cases "method_of r'") (simp_all add: article_filename_mark)
  with assms show ?thesis by (simp add: article_filename_def)
qed

lemma parse_article_title: "parse_article w p = Some r \<Longrightarrow> title r = stem p"
  by (auto simp: parse_article_def split: prod.splits if_splits)

lemma advance_output_dir:
  "parse_article w p = Some r0 \<Longrightarrow>
     output_dir (advance w s p) = (output_dir s)(article_filename r0 \<mapsto> ArticleJson r0)"
  "parse_article w p = None \<Longrightarrow> output_dir (advance w s p) = output_dir s"
  by (simp_all add: advance_def Let_def)

text \<open>Each per-document file holds a result of that file name: the last one written.\<close>

lemma loop_files:
  "r \<in> set (List.map_filter (parse_article w) ps) \<Longrightarrow>
   \<exists>r' \<in> set (List.map_filter (parse_article w) ps).
     article_filename r' = article_filename r \<and>
     output_dir (foldl (advance w) s ps) (article_filename r) = Some (ArticleJson r')"
proof (induction ps arbitrary: s rule: rev_induct)
  case Nil
  then show ?case by (simp add: List.map_filter_simps)
next
  case (snoc p ps)
  show ?case
  proof (cases "parse_article w p")
    case None
    with snoc.prems have m: "r \<in> set (List.map_filter (parse_article w) ps)"
      by (simp add: List.map_filter_def)
    from snoc.IH [OF m, of s] None show ?thesis
      by (auto simp: advance_output_dir List.map_filter_def)
  next
    case (Some r0)
    show ?thesis
    proof (cases "article_filename r = article_filename r0")
      case True
      with Some show ?thesis
        by (intro bexI [of _ r0]) (auto simp: advance_output_dir List.map_filter_def)
    next
      case False
      with snoc.prems Some have m: "r \<in> set (List.map_filter (parse_article w) ps)"
        by (auto simp: List.map_filter_def)
      from snoc.IH [OF m, of s] obtain r' where
        "r' \<in> set (List.map_filter (parse_article w) ps)"
        "article_filename r' = article_filename r"
        "output_dir (foldl (advance w) s ps) (article_filename r) = Some (ArticleJson r')"
        by blast
      with Some False show ?thesis
        by (intro bexI [of _ r']) (auto simp: advance_output_dir List.map_filter_def)
    qed
  qed
qed

lemma distinct_filenames:
  assumes "distinct (map stem ps)"
  shows "distinct (map article_filename (List.map_filter (parse_article w) ps))"
proof -
  let ?rs = "List.map_filter (parse_article w) ps"
  have t: "map title ?rs = map stem (filter (\<lambda>p. parse_article w p \<noteq> None) ps)"
    by (induction ps) (auto simp: List.map_filter_simps parse_article_title split: option.splits)
  have "distinct (map title ?rs)"
    unfolding t using assms by (rule distinct_map_filter)
  then have d: "distinct ?rs" and i: "inj_on title (set ?rs)"
    by (simp_all add: distinct_map)
  have "inj_on article_filename (set ?rs)"
  proof (rule inj_onI)
    fix x y assume "x \<in> set ?rs" "y \<in> set ?rs" "article_filename x = article_filename y"
    then show "x = y" using i article_filename_inj by (auto dest: inj_onD)
  qed
  with d show ?thesis by (simp add: distinct_map)
qed

lemma completed_main_files:
  assumes "r \<in> set (results (completed_main w fs d))"
  shows "\<exists>r' \<in> set (results (completed_main w fs d)).
     article_filename r' = article_filename r \<and>
     output_dir (completed_main w fs d) (article_filename r) = Some (ArticleJson r')"
proof -
  from assms have m: "r \<in> set (List.map_filter (parse_article w) fs)"
    by (simp add: completed_main_results completed_loop_results)
  from loop_files [OF m, of "initial_state d"] obtain r' where r':
    "r' \<in> set (List.map_filter (parse_article w) fs)"
    "article_filename r' = article_filename r"
    "output_dir (completed_loop w fs d) (article_filename r) = Some (ArticleJson r')"
    by (auto simp: completed_loop_def)
  have "output_dir (completed_main w fs d) (article_filename r) = Some (ArticleJson r')"
    using r'(3) by (simp add: completed_main_def Let_def article_filename_not_summary)
  with r'(1,2) show ?thesis
    by (intro bexI [of _ r']) (simp_all add: completed_main_results completed_loop_results)
qed

lemma world_ok_quiet:
  "mkdir world_ok = None \<and> (\<forall>l. console world_ok l = None) \<and>
   (\<forall>f c. write_json world_ok f c = None)"
  by (simp add: world_ok_def)

lemma world_nothing_quiet:
  "mkdir world_nothing = None \<and> (\<forall>l. console world_nothing l = None) \<and>
   (\<forall>f c. write_json world_nothing f c = None)"
  by (simp add: world_nothing_def)

lemma main_nothing:
  "main world_nothing [example_path] empty_dir = Inr (completed_main world_nothing [example_path] empty_dir) \<and>
   results (completed_main world_nothing [example_path] empty_dir) = [] \<and>
   output_dir (completed_main world_nothing [example_path] empty_dir) = Map.empty"
  using world_nothing_quiet
  by (simp add: main_quiet completed_main_def completed_loop_def initial_state_def advance_def
      parse_article_world_nothing empty_dir_def)

lemma fallback_world_ok_any:
  "extract_with_fallback world_ok p =
     (\<lparr>abstract = py ''Foo bar.'', full_text = py ''Hello [1]''\<rparr>, GROBID)"
  by (simp add: extract_with_fallback_def parse_pdf_to_xml_def try_parse_pdf_to_xml_def
      extract_from_xml_def try_extract_from_xml_def world_ok_def extract_example_tree
      example_xml_def py_def)

lemma hidden_stems:
  "stem (Path [py ''pages''] (py ''.pdf'')) = py ''.pdf''"
  "stem (Path [py ''pages''] (py ''.pdf.pdf'')) = py ''.pdf''"
  by (simp_all add: stem_def py_rfind_def py_def)

lemma main_hidden:
  "main world_ok hidden_batch empty_dir = Inr (completed_main world_ok hidden_batch empty_dir) \<and>
   results (completed_main world_ok hidden_batch empty_dir) =
     [\<lparr>abstract = py ''Foo bar.'', full_text = py ''Hello [1]'', filename = py ''.pdf'',
       title = py ''.pdf'', abstract_length = 8, text_length = 9, method_of = GROBID\<rparr>,
      \<lparr>abstract = py ''Foo bar.'', full_text = py ''Hello [1]'', filename = py ''.pdf.pdf'',
       title = py ''.pdf'', abstract_length = 8, text_length = 9, method_of = GROBID\<rparr>] \<and>
   output_dir (completed_main world_ok hidden_batch empty_dir)
     (article_filename
       \<lparr>abstract = py ''Foo bar.'', full_text = py ''Hello [1]'', filename = py ''.pdf'',
        title = py ''.pdf'', abstract_length = 8, text_length = 9, method_of = GROBID\<rparr>) =
     Some (ArticleJson
       \<lparr>abstract = py ''Foo bar.'', full_text = py ''Hello [1]'', filename = py ''.pdf.pdf'',
        title = py ''.pdf'', abstract_length = 8, text_length = 9, method_of = GROBID\<rparr>)"
  using world_ok_quiet
  by (simp add: main_quiet completed_main_def completed_loop_def initial_state_def advance_def
      parse_article_def fallback_world_ok_any hidden_batch_def hidden_stems Let_def
      article_filename_def method_name_def)
     (simp add: py_def)

lemma long_path_result:
  "parse_article world_short_names long_path =
     Some \<lparr>abstract = py ''Foo bar.'', full_text = py ''Hello [1]'',
           filename = replicate 246 97 @ py ''.pdf'', title = replicate 246 97,
           abstract_length = 8, text_length = 9, method_of = GROBID\<rparr>"
proof -
  have "extract_with_fallback world_short_names long_path =
     (\<lparr>abstract = py ''Foo bar.'', full_text = py ''Hello [1]''\<rparr>, GROBID)"
    by (simp add: extract_with_fallback_def parse_pdf_to_xml_def try_parse_pdf_to_xml_def
        extract_from_xml_def try_extract_from_xml_def world_short_names_def extract_example_tree
        example_xml_def py_def)
  moreover have "stem long_path = replicate 246 97"
    by (rule stem_cuts_extension [where ext = "py ''pdf''"]) (simp_all add: long_path_def py_def)
  moreover have "name long_path = replicate 246 97 @ py ''.pdf''"
    by (simp add: long_path_def)
  ultimately show ?thesis by (simp add: parse_article_def) (simp add: py_def)
qed

lemma main_long_path: "main world_short_names [long_path] empty_dir = Inl OSError"
proof -
  have c: "console world_short_names l = None" for l
    by (simp add: world_short_names_def)
  have m: "mkdir world_short_names = None"
    by (simp add: world_short_names_def)
  have "255 < length (title r @ py ''_'' @ method_name GROBID @ py ''.json'')"
    if "title r = replicate 246 97" for r :: extraction_result
    using that by (simp add: method_name_def py_def)
  then have w: "write_json world_short_names (article_filename r) c = Some OSError"
    if "title r = replicate 246 97" "method_of r = GROBID" for r c
    using that by (simp add: world_short_names_def article_filename_def)
  have "process world_short_names 1 1 (initial_state empty_dir) long_path = Inl OSError"
    by (simp add: process_def long_path_result c w)
  then show ?thesis
    by (simp add: main_def main_loop_def c m)
qed

text \<open>
  C8, as amended.  In the state a run returns, the results are those of the documents
  that yield one, in the order of the listing, and each file \<open>{title}_{method}.json\<close>
  holds a result of that title and method: the result itself when no other result has
  the same file name, as is the case when the documents have distinct stems.  When there
  is a result, \<open>all_articles.json\<close> holds the list of results and
  \<open>parsing_statistics.json\<close> the statistics; when there is none, the run writes no file.
  A run returns when creating the directory, the prints and the writes do not raise.
\<close>

theorem output_files:
  "(\<forall>s. main w fs d = Inr s \<longrightarrow>
      results s = List.map_filter (parse_article w) fs \<and>
      (\<forall>r \<in> set (results s). \<exists>r' \<in> set (results s).
         article_filename r' = article_filename r \<and>
         output_dir s (article_filename r) = Some (ArticleJson r')) \<and>
      (distinct (map article_filename (results s)) \<longrightarrow>
         (\<forall>r \<in> set (results s). output_dir s (article_filename r) = Some (ArticleJson r))) \<and>
      (distinct (map stem fs) \<longrightarrow> distinct (map article_filename (results s))) \<and>
      (results s \<noteq> [] \<longrightarrow>
         output_dir s (py ''all_articles.json'') = Some (ArticlesJson (results s)) \<and>
         (\<exists>st. output_dir s (py ''parsing_statistics.json'') = Some (StatsJson st) \<and>
            total_files st = length fs \<and> successful st = length (results s) \<and>
            grobid_success st = grobid_success s \<and> pymupdf_success st = pymupdf_success s \<and>
            failed st = failed s)) \<and>
      (results s = [] \<longrightarrow> output_dir s = d)) \<and>
   (mkdir w = None \<and> (\<forall>l. console w l = None) \<and> (\<forall>f c. write_json w f c = None) \<longrightarrow>
      (\<exists>s. main w fs d = Inr s))"
proof -
  let ?M = "completed_main w fs d"
  have res: "results ?M = List.map_filter (parse_article w) fs"
    by (simp add: completed_main_results completed_loop_results)
  have some: "\<forall>r \<in> set (results ?M). \<exists>r' \<in> set (results ?M).
         article_filename r' = article_filename r \<and>
         output_dir ?M (article_filename r) = Some (ArticleJson r')"
    using completed_main_files by blast
  have own: "distinct (map article_filename (results ?M)) \<longrightarrow>
         (\<forall>r \<in> set (results ?M). output_dir ?M (article_filename r) = Some (ArticleJson r))"
  proof (intro impI ballI)
    fix r assume dist: "distinct (map article_filename (results ?M))" and r: "r \<in> set (results ?M)"
    from some r obtain r' where r': "r' \<in> set (results ?M)"
      "article_filename r' = article_filename r"
      "output_dir ?M (article_filename r) = Some (ArticleJson r')"
      by blast
    from dist have "inj_on article_filename (set (results ?M))" by (simp add: distinct_map)
    with r r'(1,2) have "r' = r" by (auto dest: inj_onD)
    with r'(3) show "output_dir ?M (article_filename r) = Some (ArticleJson r)" by simp
  qed
  have stems: "distinct (map stem fs) \<longrightarrow> distinct (map article_filename (results ?M))"
    unfolding res using distinct_filenames by blast
  have ne: "py ''all_articles.json'' \<noteq> py ''parsing_statistics.json''"
    by (simp add: py_def)
  have summary: "results ?M \<noteq> [] \<longrightarrow>
         output_dir ?M (py ''all_articles.json'') = Some (ArticlesJson (results ?M)) \<and>
         (\<exists>st. output_dir ?M (py ''parsing_statistics.json'') = Some (StatsJson st) \<and>
            total_files st = length fs \<and> successful st = length (results ?M) \<and>
            grobid_success st = grobid_success ?M \<and> pymupdf_success st = pymupdf_success ?M \<and>
            failed st = failed ?M)"
    using ne by (simp add: completed_main_def Let_def)
  have none: "results ?M = [] \<longrightarrow> output_dir ?M = d"
    using loop_no_results [of w "initial_state d" fs]
    by (simp add: completed_main_def Let_def completed_loop_def initial_state_def)
  have 1: "\<forall>s. main w fs d = Inr s \<longrightarrow>
      results s = List.map_filter (parse_article w) fs \<and>
      (\<forall>r \<in> set (results s). \<exists>r' \<in> set (results s).
         article_filename r' = article_filename r \<and>
         output_dir s (article_filename r) = Some (ArticleJson r')) \<and>
      (distinct (map article_filename (results s)) \<longrightarrow>
         (\<forall>r \<in> set (results s). output_dir s (article_filename r) = Some (ArticleJson r))) \<and>
      (distinct (map stem fs) \<longrightarrow> distinct (map article_filename (results s))) \<and>
      (results s \<noteq> [] \<longrightarrow>
         output_dir s (py ''all_articles.json'') = Some (ArticlesJson (results s)) \<and>
         (\<exists>st. output_dir s (py ''parsing_statistics.json'') = Some (StatsJson st) \<and>
            total_files st = length fs \<and> successful st = length (results s) \<and>
            grobid_success st = grobid_success s \<and> pymupdf_success st = pymupdf_success s \<and>
            failed st = failed s)) \<and>
      (results s = [] \<longrightarrow> output_dir s = d)"
  proof (intro allI impI)
    fix s assume "main w fs d = Inr s"
    then have s: "s = ?M" by (rule main_completed)
    show "results s = List.map_filter (parse_article w) fs \<and>
      (\<forall>r \<in> set (results s). \<exists>r' \<in> set (results s).
         article_filename r' = article_filename r \<and>
         output_dir s (article_filename r) = Some (ArticleJson r')) \<and>
      (distinct (map article_filename (results s)) \<longrightarrow>
         (\<forall>r \<in> set (results s). output_dir s (article_filename r) = Some (ArticleJson r))) \<and>
      (distinct (map stem fs) \<longrightarrow> distinct (map article_filename (results s))) \<and>
      (results s \<noteq> [] \<longrightarrow>
         output_dir s (py ''all_articles.json'') = Some (ArticlesJson (results s)) \<and>
         (\<exists>st. output_dir s (py ''parsing_statistics.json'') = Some (StatsJson st) \<and>
            total_files st = length fs \<and> successful st = length (results s) \<and>
            grobid_success st = grobid_success s \<and> pymupdf_success st = pymupdf_success s \<and>
            failed st = failed s)) \<and>
      (results s = [] \<longrightarrow> output_dir s = d)"
      unfolding s using res some own stems summary none by blast
  qed
  have 2: "mkdir w = None \<and> (\<forall>l. console w l = None) \<and> (\<forall>f c. write_json w f c = None) \<longrightarrow>
      (\<exists>s. main w fs d = Inr s)"
    using main_quiet by blast
  from 1 2 show ?thesis by blast
qed

theorem output_files_witness:
  "distinct (map stem batch) \<and>
   (\<exists>s. main world_batch batch empty_dir = Inr s \<and>
      map title (results s) = [py ''a'', py ''b''] \<and>
      distinct (map article_filename (results s)) \<and>
      list_all (\<lambda>r. output_dir s (article_filename r) = Some (ArticleJson r)) (results s) \<and>
      output_dir s (py ''all_articles.json'') = Some (ArticlesJson (results s)) \<and>
      (\<exists>st. output_dir s (py ''parsing_statistics.json'') = Some (StatsJson st) \<and>
         total_files st = 3 \<and> successful st = 2))"
proof -
  note t = output_files [of world_batch batch empty_dir]
  have dist: "distinct (map stem batch)"
    by (simp add: batch_def stem_def py_rfind_def py_def)
  from t world_batch_quiet obtain s where s: "main world_batch batch empty_dir = Inr s"
    by blast
  have r: "results s = results (completed_loop world_batch batch empty_dir)"
    using main_completed [OF s] by (simp add: completed_main_results)
  have ti: "map title (results s) = [py ''a'', py ''b'']"
    using r batch_results by simp
  then have ne: "results s \<noteq> []" by auto
  from ti have l: "length (results s) = 2"
    by (metis length_map length_Cons list.size(3) One_nat_def Suc_1)
  have b: "length batch = 3" by (simp add: batch_def)
  from t s dist have df: "distinct (map article_filename (results s))" by blast
  with t s have "\<forall>r \<in> set (results s). output_dir s (article_filename r) = Some (ArticleJson r)"
    by blast
  then have a: "list_all (\<lambda>r. output_dir s (article_filename r) = Some (ArticleJson r)) (results s)"
    by (simp add: list_all_iff)
  from t s ne obtain st where
    "output_dir s (py ''all_articles.json'') = Some (ArticlesJson (results s))"
    "output_dir s (py ''parsing_statistics.json'') = Some (StatsJson st)"
    "total_files st = length batch" "successful st = length (results s)"
    by blast
  then show ?thesis using dist s ti df a l b by auto
qed

text \<open>
  The claim as stated fails in three ways.  A run whose only document yields no text
  returns with the directory empty, with neither summary file.  A run over \<open>.pdf\<close> and
  \<open>.pdf.pdf\<close>, which have the same stem, returns with two results and the file of the
  first holding the second.  A run over a document whose output file name would have 258
  characters, on a file system that allows 255, ends with the error of the write, though
  the document yields a result.
\<close>

theorem output_files_counterexample:
  "\<not> isl (main world_nothing [example_path] empty_dir) \<and>
   output_dir (projr (main world_nothing [example_path] empty_dir)) (py ''all_articles.json'') = None \<and>
   output_dir (projr (main world_nothing [example_path] empty_dir)) (py ''parsing_statistics.json'') = None \<and>
   \<not> isl (main world_ok hidden_batch empty_dir) \<and>
   map filename (results (projr (main world_ok hidden_batch empty_dir))) =
     [py ''.pdf'', py ''.pdf.pdf''] \<and>
   output_dir (projr (main world_ok hidden_batch empty_dir))
     (article_filename (hd (results (projr (main world_ok hidden_batch empty_dir))))) \<noteq>
     Some (ArticleJson (hd (results (projr (main world_ok hidden_batch empty_dir))))) \<and>
   parse_article world_short_names long_path \<noteq> None \<and>
   main world_short_names [long_path] empty_dir = Inl OSError"
proof -
  have 1: "\<not> isl (main world_nothing [example_path] empty_dir) \<and>
      output_dir (projr (main world_nothing [example_path] empty_dir)) (py ''all_articles.json'') = None \<and>
      output_dir (projr (main world_nothing [example_path] empty_dir)) (py ''parsing_statistics.json'') = None"
    by (simp add: main_nothing)
  have 2: "\<not> isl (main world_ok hidden_batch empty_dir) \<and>
      map filename (results (projr (main world_ok hidden_batch empty_dir))) =
        [py ''.pdf'', py ''.pdf.pdf''] \<and>
      output_dir (projr (main world_ok hidden_batch empty_dir))
        (article_filename (hd (results (projr (main world_ok hidden_batch empty_dir))))) \<noteq>
        Some (ArticleJson (hd (results (projr (main world_ok hidden_batch empty_dir)))))"
    by (simp add: main_hidden) (simp add: py_def)
  have 3: "parse_article world_short_names long_path \<noteq> None \<and>
      main world_short_names [long_path] empty_dir = Inl OSError"
    by (simp add: long_path_result main_long_path)
  from 1 2 3 show ?thesis by blast
qed

section \<open>The statistics\<close>

text \<open>
  C7.  In the state a run returns with a result, the statistics are written:
  \<open>successful\<close> is the number of results and the sum of \<open>grobid_success\<close> and
  \<open>pymupdf_success\<close>, and \<open>success_rate\<close> is a number with one decimal place followed
  by a percent sign: the number of tenths printed is within a half, and the error of the
  double arithmetic, of one thousand times \<open>successful\<close> divided by \<open>total_files\<close>.
  A run returns when creating the directory, the prints and the writes do not raise.
\<close>

theorem statistics_success_rate:
  "(\<forall>s. main w fs d = Inr s \<longrightarrow>
      (results s \<noteq> [] \<longrightarrow>
         (\<exists>st t. output_dir s (py ''parsing_statistics.json'') = Some (StatsJson st) \<and>
            successful st = length (results s) \<and>
            total_files st = length fs \<and>
            successful st = grobid_success st + pymupdf_success st \<and>
            success_rate st = digits (t div 10) @ [46] @ digits (t mod 10) @ py ''%'' \<and>
            \<bar>of_nat t - 1000 * of_nat (successful st) / of_nat (total_files st)\<bar>
              \<le> (1 / 2 + 1 / 2 ^ 40 :: rat)))) \<and>
   (mkdir w = None \<and> (\<forall>l. console w l = None) \<and> (\<forall>f c. write_json w f c = None) \<longrightarrow>
      (\<exists>s. main w fs d = Inr s))"
proof -
  let ?L = "completed_loop w fs d"
  have 1: "\<forall>s. main w fs d = Inr s \<longrightarrow>
      (results s \<noteq> [] \<longrightarrow>
         (\<exists>st t. output_dir s (py ''parsing_statistics.json'') = Some (StatsJson st) \<and>
            successful st = length (results s) \<and>
            total_files st = length fs \<and>
            successful st = grobid_success st + pymupdf_success st \<and>
            success_rate st = digits (t div 10) @ [46] @ digits (t mod 10) @ py ''%'' \<and>
            \<bar>of_nat t - 1000 * of_nat (successful st) / of_nat (total_files st)\<bar>
              \<le> (1 / 2 + 1 / 2 ^ 40 :: rat)))"
  proof (intro allI impI)
    fix s assume "main w fs d = Inr s" and ne: "results s \<noteq> []"
    then have s: "s = completed_main w fs d" by (simp add: main_completed)
    from ne have False: "results ?L \<noteq> []" by (simp add: s completed_main_results)
    then have n: "0 < length (results ?L)" by simp
    have le: "length (results ?L) \<le> length fs"
      using completed_loop_counts(1) [of w fs d] by arith
    have gp: "length (results ?L) = grobid_success ?L + pymupdf_success ?L"
      using completed_loop_counts [of w fs d] by arith
    from rate_tenths [OF n le] obtain t where t:
      "format_1f (round_binary64 (round_binary64
          (of_nat (length (results ?L)) / of_nat (length fs)) * 100)) =
         digits (t div 10) @ [46] @ digits (t mod 10)"
      "\<bar>of_nat t - 1000 * of_nat (length (results ?L)) / of_nat (length fs)\<bar>
         \<le> (1 / 2 + 1 / 2 ^ 40 :: rat)"
      by blast
    from False gp t show "\<exists>st t. output_dir s (py ''parsing_statistics.json'') = Some (StatsJson st) \<and>
            successful st = length (results s) \<and>
            total_files st = length fs \<and>
            successful st = grobid_success st + pymupdf_success st \<and>
            success_rate st = digits (t div 10) @ [46] @ digits (t mod 10) @ py ''%'' \<and>
            \<bar>of_nat t - 1000 * of_nat (successful st) / of_nat (total_files st)\<bar>
              \<le> (1 / 2 + 1 / 2 ^ 40 :: rat)"
      unfolding s by (simp add: completed_main_def Let_def) blast
  qed
  have 2: "mkdir w = None \<and> (\<forall>l. console w l = None) \<and> (\<forall>f c. write_json w f c = None) \<longrightarrow>
      (\<exists>s. main w fs d = Inr s)"
    using main_quiet by blast
  from 1 2 show ?thesis by blast
qed

theorem statistics_success_rate_witness:
  "\<exists>s. main world_batch batch empty_dir = Inr s \<and> results s \<noteq> [] \<and>
     (\<exists>st. output_dir s (py ''parsing_statistics.json'') = Some (StatsJson st) \<and>
        successful st = 2 \<and> total_files st = 3 \<and>
        grobid_success st + pymupdf_success st = 2 \<and>
        success_rate st = py ''66.7%'')"
proof -
  note t = statistics_success_rate [of world_batch batch empty_dir]
  from t world_batch_quiet obtain s where s: "main world_batch batch empty_dir = Inr s"
    by blast
  have r: "results s = results (completed_loop world_batch batch empty_dir)"
    using main_completed [OF s] by (simp add: completed_main_results)
  have l: "length (results s) = 2"
    using r batch_results by (metis length_map length_Cons list.size(3) One_nat_def Suc_1)
  then have ne: "results s \<noteq> []" by auto
  have b: "length batch = 3" by (simp add: batch_def)
  from t s ne obtain st t where
    "output_dir s (py ''parsing_statistics.json'') = Some (StatsJson st)"
    "successful st = length (results s)" "total_files st = length batch"
    "successful st = grobid_success st + pymupdf_success st"
    "success_rate st = digits (t div 10) @ [46] @ digits (t mod 10) @ py ''%''"
    "\<bar>of_nat t - 1000 * of_nat (successful st) / of_nat (total_files st)\<bar>
       \<le> (1 / 2 + 1 / 2 ^ 40 :: rat)"
    by blast
  with l b have st:
    "output_dir s (py ''parsing_statistics.json'') = Some (StatsJson st)"
    "successful st = 2" "total_files st = 3"
    "successful st = grobid_success st + pymupdf_success st"
    "success_rate st = digits (t div 10) @ [46] @ digits (t mod 10) @ py ''%''"
    "\<bar>of_nat t - 1000 * of_nat (successful st) / of_nat (total_files st)\<bar>
       \<le> (1 / 2 + 1 / 2 ^ 40 :: rat)"
    by simp_all
  from st(2,3,6) have "\<bar>of_nat t - (2000 / 3 :: rat)\<bar> \<le> 1 / 2 + 1 / 2 ^ 40" by simp
  moreover have "(1 / 2 + 1 / 2 ^ 40 :: rat) < 2 / 3" by simp
  ultimately have "(666 :: rat) < of_nat t" "of_nat t < (668 :: rat)" by linarith+
  then have "666 < t" "t < 668" by simp_all
  then have "t = 667" by arith
  with st(5) have "success_rate st = py ''66.7%''" by (simp add: py_def digits.simps)
  with st(1-4) s ne show ?thesis by auto
qed

end
